theory Spec2Isabelle
  imports Main "HOL-Library.AList"
begin

section \<open>Data model of \<^verbatim>\<open>nianalysis/pipeline.py\<close>\<close>

text \<open>
  The embedding follows \<^verbatim>\<open>class Pipeline\<close>. Exceptions are values of \<open>error\<close>; a
  function that can raise returns \<open>error + 'a\<close> with \<open>Inl\<close> the exception. The message
  strings are shortened, the exception classes are the source's.
\<close>

datatype error =
    NiAnalysisError string
  | NiAnalysisMissingDatasetError string
  | AssertionError string
  | NameError string
  | KeyError string
  | TypeError string

text \<open>
  Values of pipeline options (arbitrary Python values in the source): \<^verbatim>\<open>None\<close>,
  booleans, integers, strings and lists of such values. Floating-point values are left
  out.
\<close>

datatype opt_value = VNone | VBool bool | VInt int | VStr string | VList "opt_value list"

text \<open>
  Python's \<^verbatim>\<open>==\<close> on these values: \<^verbatim>\<open>bool\<close> is a subclass of \<^verbatim>\<open>int\<close>, so
  \<^verbatim>\<open>True == 1\<close> and \<^verbatim>\<open>False == 0\<close>; lists are equal when they have the same length
  and equal items; values of different kinds are unequal otherwise.
\<close>

fun py_eq :: "opt_value \<Rightarrow> opt_value \<Rightarrow> bool" where
  "py_eq VNone VNone = True"
| "py_eq (VBool a) (VBool b) = (a = b)"
| "py_eq (VBool a) (VInt j) = ((if a then 1 else 0) = j)"
| "py_eq (VInt i) (VBool b) = (i = (if b then 1 else 0))"
| "py_eq (VInt i) (VInt j) = (i = j)"
| "py_eq (VStr x) (VStr y) = (x = y)"
| "py_eq (VList xs) (VList ys) = list_all2 py_eq xs ys"
| "py_eq _ _ = False"

text \<open>A Python \<^verbatim>\<open>dict\<close> with string keys: an association list with distinct keys.\<close>

type_synonym options_dict = "(string \<times> opt_value) list"

text \<open>The \<^verbatim>\<open>reprocess\<close> parameter: \<^verbatim>\<open>False\<close>, \<^verbatim>\<open>True\<close> or the string \<^verbatim>\<open>'all'\<close>.\<close>

datatype reprocess = RFalse | RTrue | RAll

text \<open>Python truth value of the flag: \<^verbatim>\<open>True\<close> and the non-empty string are true.\<close>

definition truthy :: "reprocess \<Rightarrow> bool" where
  "truthy r = (r \<noteq> RFalse)"

text \<open>
  A \<^verbatim>\<open>DatasetSpec\<close> as passed in \<^verbatim>\<open>inputs\<close>/\<^verbatim>\<open>outputs\<close> (the pipeline reads
  \<^verbatim>\<open>.name\<close> and \<^verbatim>\<open>.format\<close>), and what \<^verbatim>\<open>study.dataset(...)\<close> and
  \<^verbatim>\<open>study.dataset_spec(...)\<close> return (the pipeline reads \<^verbatim>\<open>.name\<close>, \<^verbatim>\<open>.format\<close>,
  \<^verbatim>\<open>.multiplicity\<close>, \<^verbatim>\<open>.processed\<close>, \<^verbatim>\<open>.pipeline\<close> and \<^verbatim>\<open>.prefixed_name\<close>).
  The producing pipeline method is referred to by its name.
\<close>

record dataset_spec =
  spec_name :: string
  spec_format :: string

record dataset =
  ds_name :: string
  ds_format :: string
  multiplicity :: string
  processed :: bool
  ds_pipeline :: string
  prefixed_name :: string

text \<open>
  The archive's project snapshot. A session refers to its subject; the pipeline only
  ever reads \<^verbatim>\<open>session.subject.id\<close>, so the reference is kept as the subject's id.
\<close>

record session =
  sess_id :: string
  sess_subject :: string
  sess_dataset_names :: "string list"

record subject =
  subj_id :: string
  subj_sessions :: "session list"
  subj_dataset_names :: "string list"

record project =
  proj_subjects :: "subject list"
  proj_dataset_names :: "string list"

text \<open>
  A NiPype workflow as far as the pipeline touches it: the nodes (or sub-workflows)
  added to it and the connections \<open>(source node, source field, destination node,
  destination field)\<close>. A node is the pair of the identity of the pipeline object that
  created it and its (namespaced) name.
\<close>

type_synonym node = "nat \<times> string"

record workflow =
  wf_nodes :: "node list"
  wf_connections :: "(node \<times> string \<times> node \<times> string) list"

definition wf_connect :: "workflow \<Rightarrow> node \<Rightarrow> string \<Rightarrow> node \<Rightarrow> string \<Rightarrow> workflow" where
  "wf_connect w src src_field dst dst_field =
     w\<lparr>wf_connections := wf_connections w @ [(src, src_field, dst, dst_field)]\<rparr>"

definition add_nodes :: "workflow \<Rightarrow> node list \<Rightarrow> workflow" where
  "add_nodes w ns = w\<lparr>wf_nodes := wf_nodes w @ ns\<rparr>"

text \<open>
  The \<^verbatim>\<open>Pipeline\<close> object. \<open>p_ident\<close> is the identity of the Python object (two calls
  of a pipeline method give two objects); it takes no part in \<^verbatim>\<open>__eq__\<close>. \<open>p_study\<close>
  stands for the reference \<^verbatim>\<open>self._study\<close> and holds the study's name. \<open>p_outputs\<close>
  is the \<^verbatim>\<open>defaultdict(list)\<close> from multiplicity to output specs.
\<close>

record pipeline =
  p_ident :: nat
  p_name :: string
  p_study :: string
  p_workflow :: workflow
  p_version :: int
  p_inputs :: "dataset_spec list"
  p_inputnode :: node
  p_outputs :: "(string \<times> dataset_spec list) list"
  p_outputnodes :: "(string \<times> node) list"
  p_unconnected_inputs :: "string set"
  p_unconnected_outputs :: "string set"
  p_citations :: "string list"
  p_default_options :: options_dict
  p_options :: options_dict
  p_description :: string

text \<open>
  The study and its archive are not part of \<^verbatim>\<open>pipeline.py\<close>; what the pipeline calls
  on them is taken as parameters: \<^verbatim>\<open>dataset_spec_names()\<close>, \<^verbatim>\<open>dataset_spec(name)\<close>,
  \<^verbatim>\<open>dataset(name)\<close>, the pipeline methods (called with the identity of the object to construct and the
  options as keyword arguments; they construct and wire a fresh \<^verbatim>\<open>Pipeline\<close> or raise),
  \<^verbatim>\<open>archive.project(...)\<close>, and whether \<^verbatim>\<open>archive.source(...)\<close> for a pipeline raises
  \<^verbatim>\<open>NiAnalysisMissingDatasetError\<close> (with which message).
\<close>

record study =
  study_name :: string
  study_project_id :: string
  dataset_spec_names :: "string list"
  study_dataset_spec :: "string \<Rightarrow> dataset"
  study_dataset :: "string \<Rightarrow> dataset"
  pipeline_getter :: "string \<Rightarrow> nat \<Rightarrow> options_dict \<Rightarrow> error + pipeline"
  archive_project :: "string list option \<Rightarrow> string list option \<Rightarrow> project"
  archive_source_missing :: "string \<Rightarrow> string option"

section \<open>Construction: \<^verbatim>\<open>Pipeline.__init__\<close>\<close>

definition iterfields :: "string list" where
  "iterfields = [''subject_id'', ''visit_id'']"

text \<open>\<^verbatim>\<open>_check_spec_names\<close>: every spec must be a dataset spec name of the study.\<close>

definition check_spec_names :: "study \<Rightarrow> dataset_spec list \<Rightarrow> string \<Rightarrow> error + unit" where
  "check_spec_names st specs spec_type =
     (if filter (\<lambda>s. spec_name s \<notin> set (dataset_spec_names st)) specs \<noteq> []
      then Inl (NiAnalysisError (''not valid '' @ spec_type @ '' names''))
      else Inr ())"

text \<open>\<^verbatim>\<open>d[k].append(v)\<close> on a \<^verbatim>\<open>defaultdict(list)\<close>, keys in insertion order.\<close>

fun dd_append :: "('k \<times> 'v list) list \<Rightarrow> 'k \<Rightarrow> 'v \<Rightarrow> ('k \<times> 'v list) list" where
  "dd_append [] k v = [(k, [v])]"
| "dd_append ((k', vs) # m) k v =
     (if k' = k then (k', vs @ [v]) # m else (k', vs) # dd_append m k v)"

text \<open>
  Lines 116--119: the options start as a copy of the defaults; an option given to the
  pipeline overrides a default of the same name and is dropped otherwise.
\<close>

definition merge_options :: "options_dict \<Rightarrow> options_dict \<Rightarrow> options_dict" where
  "merge_options default_options options =
     fold (\<lambda>(k, v) d. if k \<in> fst ` set d then AList.update k v d else d)
       options default_options"

text \<open>Lines 92--95: the outputs are grouped by the multiplicity of their dataset spec.\<close>

definition group_outputs :: "study \<Rightarrow> dataset_spec list \<Rightarrow> (string \<times> dataset_spec list) list" where
  "group_outputs st outs =
     fold (\<lambda>output d. dd_append d (multiplicity (study_dataset_spec st (spec_name output))) output)
       outs []"

text \<open>
  \<^verbatim>\<open>Pipeline.__init__\<close>; \<open>self\<close> is the identity of the object under construction.
  The clash with an iterable field is raised as \<^verbatim>\<open>NiAnalysisError("...".format(i.name))\<close>
  where \<^verbatim>\<open>i\<close> is the variable of the generator expression of the line before, which
  is not in scope there: evaluating the message raises \<^verbatim>\<open>NameError\<close>.
\<close>

definition Pipeline_init ::
  "nat \<Rightarrow> study \<Rightarrow> string \<Rightarrow> dataset_spec list \<Rightarrow> dataset_spec list \<Rightarrow> string \<Rightarrow>
   options_dict \<Rightarrow> string list \<Rightarrow> int \<Rightarrow> options_dict \<Rightarrow> error + pipeline" where
  "Pipeline_init self st name inputs outputs description default_options citations version
     options =
     (case check_spec_names st inputs ''input'' of
        Inl e \<Rightarrow> Inl e
      | Inr _ \<Rightarrow>
        if filter (\<lambda>i. spec_name i \<in> set iterfields) inputs \<noteq> [] then Inl (NameError ''i'')
        else
          (case check_spec_names st outputs ''output'' of
             Inl e \<Rightarrow> Inl e
           | Inr _ \<Rightarrow>
             let outs = group_outputs st outputs;
                 inputnode = (self, name @ ''_inputnode'');
                 outputnodes = map (\<lambda>(mult, _). (mult, (self, name @ ''_'' @ mult @ ''_outputnode'')))
                                 outs;
                 unconnected_inputs = set (map spec_name inputs);
                 unconnected_outputs = set (map spec_name (concat (map snd outs)))
             in if length inputs \<noteq> card unconnected_inputs
                  then Inl (AssertionError ''Duplicate inputs found'')
                else if length outputs \<noteq> card unconnected_outputs
                  then Inl (AssertionError ''Duplicate outputs found'')
                else Inr \<lparr>p_ident = self, p_name = name, p_study = study_name st,
                       p_workflow = \<lparr>wf_nodes = inputnode # map snd outputnodes,
                                      wf_connections = []\<rparr>,
                       p_version = version, p_inputs = inputs, p_inputnode = inputnode,
                       p_outputs = outs, p_outputnodes = outputnodes,
                       p_unconnected_inputs = unconnected_inputs,
                       p_unconnected_outputs = unconnected_outputs,
                       p_citations = citations, p_default_options = default_options,
                       p_options = merge_options default_options options,
                       p_description = description\<rparr>))"

text \<open>
  Lines 113--119 once more, with the dictionaries as objects in a store (a list of
  dictionaries, an object's address being its index): \<^verbatim>\<open>self._default_options\<close> is the
  caller's object, \<^verbatim>\<open>copy\<close> allocates a new one, and the loop assigns into the new one.
  The result is the two references held by the pipeline and the store afterwards.
\<close>

type_synonym store = "options_dict list"

definition copy_dict :: "store \<Rightarrow> nat \<Rightarrow> nat \<times> store" where
  "copy_dict h a = (length h, h @ [h ! a])"

fun update_known :: "store \<Rightarrow> nat \<Rightarrow> options_dict \<Rightarrow> store" where
  "update_known h a [] = h"
| "update_known h a ((k, v) # kvs) =
     update_known (if k \<in> fst ` set (h ! a) then h[a := AList.update k v (h ! a)] else h) a kvs"

definition init_options :: "store \<Rightarrow> nat \<Rightarrow> nat \<Rightarrow> nat \<times> nat \<times> store" where
  "init_options h default_options options =
     (case copy_dict h default_options of
        (a, h1) \<Rightarrow> (default_options, a, update_known h1 a (h1 ! options)))"

section \<open>Wiring: \<^verbatim>\<open>connect_input\<close>, \<^verbatim>\<open>connect_output\<close>, \<^verbatim>\<open>assert_connected\<close>\<close>

definition inputs :: "pipeline \<Rightarrow> dataset_spec list" where
  "inputs p = p_inputs p"

definition outputs :: "pipeline \<Rightarrow> dataset_spec list" where
  "outputs p = concat (map snd (p_outputs p))"

definition input_names :: "pipeline \<Rightarrow> string list" where
  "input_names p = map spec_name (inputs p)"

definition output_names :: "pipeline \<Rightarrow> string list" where
  "output_names p = map spec_name (outputs p)"

text \<open>
  \<^verbatim>\<open>connect_input\<close>. When the name is not an input, the message of the \<^verbatim>\<open>assert\<close> is
  evaluated: it joins \<^verbatim>\<open>self._inputs\<close>, a list of \<^verbatim>\<open>DatasetSpec\<close> objects, with
  \<^verbatim>\<open>str.join\<close>, which raises \<^verbatim>\<open>TypeError\<close> at the first item; only with no inputs at
  all is the \<^verbatim>\<open>AssertionError\<close> raised. The connection itself is made by NiPype's
  \<^verbatim>\<open>Workflow.connect\<close>, which is not part of the repository and is taken to accept
  every connection; here and in \<^verbatim>\<open>connect_output\<close> it is recorded in the workflow.
\<close>

definition connect_input :: "pipeline \<Rightarrow> string \<Rightarrow> node \<Rightarrow> string \<Rightarrow> error + pipeline" where
  "connect_input p name nd node_input =
     (if name \<notin> set (input_names p) then
        (if p_inputs p = [] then Inl (AssertionError ''not a valid input'')
         else Inl (TypeError ''sequence item 0: expected string, DatasetSpec found''))
      else Inr (p\<lparr>p_workflow := wf_connect (p_workflow p) (p_inputnode p) name nd node_input,
                  p_unconnected_inputs := p_unconnected_inputs p - {name}\<rparr>))"

definition connect_output ::
  "study \<Rightarrow> pipeline \<Rightarrow> string \<Rightarrow> node \<Rightarrow> string \<Rightarrow> error + pipeline" where
  "connect_output st p name nd node_output =
     (if name \<notin> set (output_names p) then Inl (AssertionError ''not a valid output'')
      else if name \<notin> p_unconnected_outputs p
        then Inl (AssertionError ''output has been connected already'')
      else
        (case map_of (p_outputnodes p) (multiplicity (study_dataset_spec st name)) of
           None \<Rightarrow> Inl (KeyError (multiplicity (study_dataset_spec st name)))
         | Some outputnode \<Rightarrow>
             Inr (p\<lparr>p_workflow := wf_connect (p_workflow p) nd node_output outputnode name,
                    p_unconnected_outputs := p_unconnected_outputs p - {name}\<rparr>)))"

definition assert_connected :: "pipeline \<Rightarrow> error + unit" where
  "assert_connected p =
     (if p_unconnected_inputs p \<noteq> {} then Inl (AssertionError ''input not connected'')
      else if p_unconnected_outputs p \<noteq> {} then Inl (AssertionError ''output not connected'')
      else Inr ())"

text \<open>
  The body of a pipeline method after the constructor is a sequence of
  \<^verbatim>\<open>connect_input\<close> and \<^verbatim>\<open>connect_output\<close> calls; the first exception ends it.
\<close>

datatype wiring = ConnectInput string node string | ConnectOutput string node string

fun wire :: "study \<Rightarrow> pipeline \<Rightarrow> wiring list \<Rightarrow> error + pipeline" where
  "wire st p [] = Inr p"
| "wire st p (ConnectInput name nd fld # ws) =
     (case connect_input p name nd fld of Inl e \<Rightarrow> Inl e | Inr p' \<Rightarrow> wire st p' ws)"
| "wire st p (ConnectOutput name nd fld # ws) =
     (case connect_output st p name nd fld of Inl e \<Rightarrow> Inl e | Inr p' \<Rightarrow> wire st p' ws)"

text \<open>The names for which \<^verbatim>\<open>connect_input\<close> (\<^verbatim>\<open>connect_output\<close>) is called in a sequence.\<close>

fun wired_inputs :: "wiring list \<Rightarrow> string set" where
  "wired_inputs [] = {}"
| "wired_inputs (ConnectInput name nd fld # ws) = insert name (wired_inputs ws)"
| "wired_inputs (ConnectOutput name nd fld # ws) = wired_inputs ws"

fun wired_outputs :: "wiring list \<Rightarrow> string set" where
  "wired_outputs [] = {}"
| "wired_outputs (ConnectInput name nd fld # ws) = wired_outputs ws"
| "wired_outputs (ConnectOutput name nd fld # ws) = insert name (wired_outputs ws)"

section \<open>Selecting the sessions to process: \<^verbatim>\<open>_sessions_to_process\<close>\<close>

definition all_sessions :: "project \<Rightarrow> session list" where
  "all_sessions pr = concat (map subj_sessions (proj_subjects pr))"

definition filter_sessions :: "string list option \<Rightarrow> session list \<Rightarrow> session list" where
  "filter_sessions visit_ids ss =
     (case visit_ids of None \<Rightarrow> ss | Some vs \<Rightarrow> filter (\<lambda>s. sess_id s \<in> set vs) ss)"

text \<open>\<^verbatim>\<open>s.update(xs)\<close> on a Python set, kept as a list without repetitions.\<close>

definition set_update :: "'a list \<Rightarrow> 'a list \<Rightarrow> 'a list" where
  "set_update acc xs = fold List.insert xs acc"

text \<open>The loop over the outputs, with its early \<^verbatim>\<open>return all_sessions\<close>.\<close>

fun sessions_loop ::
  "project \<Rightarrow> string list option \<Rightarrow> dataset list \<Rightarrow> session list \<Rightarrow> error + session list" where
  "sessions_loop pr visit_ids [] acc = Inr acc"
| "sessions_loop pr visit_ids (d # ds) acc =
     (if multiplicity d = ''per_project'' then
        (if prefixed_name d \<notin> set (proj_dataset_names pr) then Inr (all_sessions pr)
         else sessions_loop pr visit_ids ds acc)
      else if multiplicity d \<in> {''per_subject'', ''per_visit''} then
        sessions_loop pr visit_ids ds
          (set_update acc
             (concat (map (\<lambda>sub. filter_sessions visit_ids (subj_sessions sub))
                (filter (\<lambda>sub. prefixed_name d \<notin> set (subj_dataset_names sub))
                   (proj_subjects pr)))))
      else if multiplicity d = ''per_session'' then
        sessions_loop pr visit_ids ds
          (set_update acc
             (filter_sessions visit_ids
                (filter (\<lambda>s. prefixed_name d \<notin> set (sess_dataset_names s)) (all_sessions pr))))
      else Inl (AssertionError ''Unrecognised multiplicity''))"

definition sessions_to_process ::
  "study \<Rightarrow> pipeline \<Rightarrow> project \<Rightarrow> string list option \<Rightarrow> reprocess \<Rightarrow> error + session list" where
  "sessions_to_process st p pr visit_ids reproc =
     (if truthy reproc then Inr (all_sessions pr)
      else sessions_loop pr visit_ids
             (map (\<lambda>output. study_dataset st (spec_name output)) (outputs p)) [])"

section \<open>The iteration space: \<^verbatim>\<open>_subject_and_session_iterators\<close>\<close>

text \<open>\<^verbatim>\<open>d[k].add(v)\<close> on a \<^verbatim>\<open>defaultdict(set)\<close>, keys in insertion order.\<close>

fun dd_add :: "('k \<times> 'v list) list \<Rightarrow> 'k \<Rightarrow> 'v \<Rightarrow> ('k \<times> 'v list) list" where
  "dd_add [] k v = [(k, [v])]"
| "dd_add ((k', vs) # m) k v =
     (if k' = k then (k', List.insert v vs) # m else (k', vs) # dd_add m k v)"

text \<open>
  What is bound to the \<^verbatim>\<open>sessions\<close> node: either \<^verbatim>\<open>iterables = ('visit_id', keys)\<close>,
  one list of visit ids for all subjects, or \<^verbatim>\<open>itersource\<close> and
  \<^verbatim>\<open>iterables = ('visit_id', subject_sessions)\<close>, the visit ids of each subject.
\<close>

datatype visit_binding =
    Flat "string list"
  | Sourced "string \<times> string" "(string \<times> string list) list"

record iterators =
  it_subjects :: node
  it_sessions :: node
  subjects_iterables :: "string list"
  sessions_binding :: visit_binding

definition session_subjects :: "session list \<Rightarrow> (string \<times> string list) list" where
  "session_subjects ws = fold (\<lambda>s d. dd_add d (sess_id s) (sess_subject s)) ws []"

definition subject_sessions :: "session list \<Rightarrow> (string \<times> string list) list" where
  "subject_sessions ws = fold (\<lambda>s d. dd_append d (sess_subject s) (sess_id s)) ws []"

definition subject_and_session_iterators ::
  "pipeline \<Rightarrow> session list \<Rightarrow> workflow \<Rightarrow> iterators \<times> workflow" where
  "subject_and_session_iterators p ws w =
     (let subjects = (p_ident p, p_name p @ ''_subjects'');
          sessions = (p_ident p, p_name p @ ''_sessions'');
          subjects_to_process = remdups (map sess_subject ws);
          subject_ids_to_process = set subjects_to_process;
          binding =
            (if list_all (\<lambda>ss. set ss = subject_ids_to_process) (map snd (session_subjects ws))
             then Flat (map fst (session_subjects ws))
             else Sourced (p_name p @ ''_subjects'', ''subject_id'') (subject_sessions ws))
      in (\<lparr>it_subjects = subjects, it_sessions = sessions,
           subjects_iterables = subjects_to_process, sessions_binding = binding\<rparr>,
          wf_connect (add_nodes w [subjects, sessions])
            subjects ''subject_id'' sessions ''subject_id''))"

text \<open>
  For stating what the binding depends on: the subjects that have a visit in the work
  set, the visits of a subject in the work set, and whether a binding is the flat one.
\<close>

definition subjects_with_visit :: "session list \<Rightarrow> string \<Rightarrow> string set" where
  "subjects_with_visit ws v = sess_subject ` {s \<in> set ws. sess_id s = v}"

definition visits_of_subject :: "session list \<Rightarrow> string \<Rightarrow> string set" where
  "visits_of_subject ws sid = sess_id ` {s \<in> set ws. sess_subject s = sid}"

definition is_flat :: "visit_binding \<Rightarrow> bool" where
  "is_flat b = (case b of Flat vs \<Rightarrow> True | Sourced src m \<Rightarrow> False)"

section \<open>Connecting to the archive: \<^verbatim>\<open>connect_to_archive\<close>\<close>

text \<open>
  \<^verbatim>\<open>Pipeline.__eq__\<close>: name, study, inputs, outputs, options and citations, each
  compared with Python's \<^verbatim>\<open>==\<close>. The names and citations are strings. The study is
  compared as the object it is (\<open>p_study\<close> stands for the reference). \<^verbatim>\<open>DatasetSpec\<close>
  is not defined in \<^verbatim>\<open>pipeline.py\<close>; its \<^verbatim>\<open>==\<close> is taken to compare the name and
  the format. Two dictionaries are equal when they have the same keys and equal values
  under each key: for \<^verbatim>\<open>_outputs\<close> the values are lists of specs, for \<^verbatim>\<open>_options\<close>
  they are option values, compared by \<open>py_eq\<close>.
\<close>

definition dict_eq :: "('k \<times> 'v) list \<Rightarrow> ('k \<times> 'v) list \<Rightarrow> bool" where
  "dict_eq a b = (set a = set b)"

definition options_eq :: "options_dict \<Rightarrow> options_dict \<Rightarrow> bool" where
  "options_eq a b =
     (set (map fst a) = set (map fst b) \<and>
      list_all (\<lambda>(k, v). case map_of b k of None \<Rightarrow> False | Some v' \<Rightarrow> py_eq v v') a)"

definition pipeline_eq :: "pipeline \<Rightarrow> pipeline \<Rightarrow> bool" where
  "pipeline_eq a b =
     (p_name a = p_name b \<and> p_study a = p_study b \<and> p_inputs a = p_inputs b \<and>
      dict_eq (p_outputs a) (p_outputs b) \<and> options_eq (p_options a) (p_options b) \<and>
      p_citations a = p_citations b)"

text \<open>
  The state of one top-level call: the workflow under assembly, the dictionary
  \<^verbatim>\<open>connected_prereqs\<close> (pipeline name to the pair of the pipeline and its report
  node), and the identity the next constructed \<^verbatim>\<open>Pipeline\<close> object will get. The
  workflow is kept flat: a node made by \<^verbatim>\<open>self.create_node\<close> in
  \<^verbatim>\<open>connect_to_archive\<close> is listed next to the pipeline's own workflow, which
  \<^verbatim>\<open>add_nodes([self._workflow])\<close> lists as the node \<open>(p_ident p, p_name p)\<close>.
\<close>

record run_state =
  complete_workflow :: workflow
  connected_prereqs :: "string \<rightharpoonup> pipeline \<times> node"
  next_ident :: nat

definition create_node :: "pipeline \<Rightarrow> string \<Rightarrow> workflow \<Rightarrow> node \<times> workflow" where
  "create_node p name w =
     (let nd = (p_ident p, p_name p @ ''_'' @ name) in (nd, add_nodes w [nd]))"

definition has_prerequisites :: "study \<Rightarrow> pipeline \<Rightarrow> bool" where
  "has_prerequisites st p =
     list_ex (\<lambda>i. processed (study_dataset st (spec_name i))) (inputs p)"

text \<open>
  The set \<^verbatim>\<open>pipeline_getters\<close> of \<^verbatim>\<open>prerequisities\<close>: the producing methods of the
  processed inputs, each once. The generator calls them one by one as the loop of
  \<^verbatim>\<open>connect_to_archive\<close> asks for the next prerequisite.
\<close>

definition pipeline_getters :: "study \<Rightarrow> pipeline \<Rightarrow> string list" where
  "pipeline_getters st p =
     remdups (map ds_pipeline
       (filter processed (map (\<lambda>i. study_dataset st (spec_name i)) (inputs p))))"

text \<open>The flag handed to a prerequisite (line 341).\<close>

definition prereq_reprocess :: "reprocess \<Rightarrow> reprocess" where
  "prereq_reprocess reproc = (if reproc = RAll then reproc else RFalse)"

fun show_nat :: "nat \<Rightarrow> string" where
  "show_nat n =
     (if n < 10 then [char_of (48 + n)] else show_nat (n div 10) @ [char_of (48 + n mod 10)])"

text \<open>Lines 347--357: the reports of the prerequisites are merged and gate \<^verbatim>\<open>subjects\<close>.\<close>

fun connect_reports_in ::
  "node list \<Rightarrow> nat \<Rightarrow> node \<Rightarrow> workflow \<Rightarrow> workflow" where
  "connect_reports_in [] i prereq_reports w = w"
| "connect_reports_in (report # rs) i prereq_reports w =
     connect_reports_in rs (Suc i) prereq_reports
       (wf_connect w report ''subject_session_pairs'' prereq_reports (''in'' @ show_nat i))"

definition connect_prereq_reports ::
  "pipeline \<Rightarrow> node list \<Rightarrow> iterators \<Rightarrow> workflow \<Rightarrow> workflow" where
  "connect_prereq_reports p reports its w =
     (if reports = [] then w
      else (case create_node p ''prereq_reports'' w of
              (prereq_reports, w1) \<Rightarrow>
                wf_connect (connect_reports_in reports 1 prereq_reports w1)
                  prereq_reports ''out'' (it_subjects its) ''prereq_reports''))"

text \<open>
  Modelled from the spec: the constants \<^verbatim>\<open>OUTPUT_SUFFIX\<close> and \<^verbatim>\<open>INPUT_SUFFIX\<close> of
  \<^verbatim>\<open>nianalysis.utils\<close> (the source exposes an artifact under \<open>name + "_out"\<close>, the sink
  accepts it under \<open>name + "_in"\<close>), and \<^verbatim>\<open>get_converter_node\<close> of
  \<^verbatim>\<open>nianalysis.data_formats\<close>, of which only the interface is used here: it puts a
  conversion node of the given name behind the given output and returns that node and
  the name of its output.
\<close>

definition OUTPUT_SUFFIX :: string where
  "OUTPUT_SUFFIX = ''_out''"

definition INPUT_SUFFIX :: string where
  "INPUT_SUFFIX = ''_in''"

definition get_converter_node ::
  "pipeline \<Rightarrow> string \<Rightarrow> node \<Rightarrow> workflow \<Rightarrow> string \<Rightarrow> (node \<times> string) \<times> workflow" where
  "get_converter_node p dataset_name src w node_name =
     (let conv = (p_ident p, node_name)
      in ((conv, ''converted''), wf_connect (add_nodes w [conv]) src dataset_name conv ''to_convert''))"

text \<open>Lines 380--397: every input is read from the source, through a converter if needed.\<close>

fun connect_inputs ::
  "study \<Rightarrow> pipeline \<Rightarrow> node \<Rightarrow> dataset_spec list \<Rightarrow> workflow \<Rightarrow> workflow" where
  "connect_inputs st p source [] w = w"
| "connect_inputs st p source (inpt # rest) w =
     (let dataset = study_dataset st (spec_name inpt) in
      if ds_format dataset \<noteq> spec_format inpt then
        (case get_converter_node p (ds_name dataset @ OUTPUT_SUFFIX) source w
                (p_name p @ ''_'' @ spec_name inpt @ ''_input_conversion'') of
           ((dataset_source, dataset_name), w1) \<Rightarrow>
             connect_inputs st p source rest
               (wf_connect w1 dataset_source dataset_name (p_inputnode p) (spec_name inpt)))
      else
        connect_inputs st p source rest
          (wf_connect w source (ds_name dataset @ OUTPUT_SUFFIX) (p_inputnode p)
             (spec_name inpt)))"

text \<open>\<^verbatim>\<open>_connect_to_reports\<close>: how the writes of one sink reach the report node.\<close>

definition connect_to_reports ::
  "pipeline \<Rightarrow> node \<Rightarrow> node \<Rightarrow> string \<Rightarrow> workflow \<Rightarrow> workflow" where
  "connect_to_reports p sink output_summary mult w =
     (if mult = ''per_session'' then
        (let session_outputs = (p_ident p, p_name p @ ''_session_outputs'');
             subject_session_outputs = (p_ident p, p_name p @ ''_subject_session_outputs'');
             w1 = wf_connect w sink ''subject_id'' session_outputs ''subjects'';
             w2 = wf_connect w1 sink ''visit_id'' session_outputs ''sessions'';
             w3 = wf_connect w2 session_outputs ''subject_session_pairs''
                    subject_session_outputs ''subject_session_pairs''
         in wf_connect w3 subject_session_outputs ''subject_session_pairs''
              output_summary ''subject_session_pairs'')
      else if mult = ''per_subject'' then
        (let subject_output_summary = (p_ident p, p_name p @ ''_subject_summary_outputs'');
             w1 = wf_connect w sink ''subject_id'' subject_output_summary ''subjects''
         in wf_connect w1 subject_output_summary ''subjects'' output_summary ''subjects'')
      else if mult = ''per_visit'' then
        (let visit_output_summary = (p_ident p, p_name p @ ''_visit_summary_outputs'');
             w1 = wf_connect w sink ''visit_id'' visit_output_summary ''sessions''
         in wf_connect w1 visit_output_summary ''sessions'' output_summary ''visits'')
      else if mult = ''per_project'' then
        wf_connect w sink ''project_id'' output_summary ''project''
      else w)"

text \<open>Lines 419--436: the processed outputs of one multiplicity go to its sink.\<close>

fun connect_outputs ::
  "study \<Rightarrow> pipeline \<Rightarrow> node \<Rightarrow> node \<Rightarrow> dataset_spec list \<Rightarrow> workflow \<Rightarrow> workflow" where
  "connect_outputs st p outputnode sink [] w = w"
| "connect_outputs st p outputnode sink (output # rest) w =
     (let dataset = study_dataset st (spec_name output) in
      if processed dataset then
        (if ds_format dataset \<noteq> spec_format output then
           (case get_converter_node p (spec_name output) outputnode w
                   (spec_name output @ ''_output_conversion'') of
              ((output_node, node_dataset_name), w1) \<Rightarrow>
                connect_outputs st p outputnode sink rest
                  (wf_connect w1 output_node node_dataset_name sink
                     (ds_name dataset @ INPUT_SUFFIX)))
         else
           connect_outputs st p outputnode sink rest
             (wf_connect w outputnode (ds_name dataset) sink (ds_name dataset @ INPUT_SUFFIX)))
      else connect_outputs st p outputnode sink rest w)"

text \<open>Lines 403--438: one sink for each multiplicity of \<^verbatim>\<open>self._outputs\<close>.\<close>

fun connect_sinks ::
  "study \<Rightarrow> pipeline \<Rightarrow> iterators \<Rightarrow> node \<Rightarrow> (string \<times> dataset_spec list) list \<Rightarrow> workflow \<Rightarrow>
   error + workflow" where
  "connect_sinks st p its report [] w = Inr w"
| "connect_sinks st p its report ((mult, outs) # rest) w =
     (let sink = (p_ident p, p_name p @ ''_'' @ mult @ ''_sink'');
          w1 = (if mult \<in> {''per_session'', ''per_subject''}
                then wf_connect w (it_sessions its) ''subject_id'' sink ''subject_id'' else w);
          w2 = (if mult \<in> {''per_session'', ''per_visit''}
                then wf_connect w1 (it_sessions its) ''visit_id'' sink ''visit_id'' else w1)
      in if list_ex (\<lambda>output. processed (study_dataset st (spec_name output))) outs
            \<and> map_of (p_outputnodes p) mult = None
         then Inl (KeyError mult)
         else connect_sinks st p its report rest
                (connect_to_reports p sink report mult
                   (connect_outputs st p (the (map_of (p_outputnodes p) mult)) sink outs w2)))"

text \<open>
  Lines 358--439, after the prerequisites: the source (whose construction may raise
  \<^verbatim>\<open>NiAnalysisMissingDatasetError\<close>, re-raised with the pipeline's name), the ids, the
  inputs, the report node and the sinks. The result is the report node.
\<close>

definition bind_archive ::
  "study \<Rightarrow> pipeline \<Rightarrow> iterators \<Rightarrow> workflow \<Rightarrow> error + node \<times> workflow" where
  "bind_archive st p its w =
     (case archive_source_missing st (p_name p) of
        Some msg \<Rightarrow>
          Inl (NiAnalysisMissingDatasetError
                 (msg @ '', which is required for pipeline '' @ p_name p))
      | None \<Rightarrow>
          (let source = (p_ident p, p_name p @ ''_source'');
               sessions = it_sessions its;
               w1 = wf_connect w sessions ''subject_id'' (p_inputnode p) ''subject_id'';
               w2 = wf_connect w1 sessions ''visit_id'' (p_inputnode p) ''visit_id'';
               w3 = wf_connect w2 sessions ''subject_id'' source ''subject_id'';
               w4 = wf_connect w3 sessions ''visit_id'' source ''visit_id'';
               w5 = connect_inputs st p source (inputs p) w4
           in (case create_node p ''report'' w5 of
                 (report, w6) \<Rightarrow>
                   (case connect_sinks st p its report (p_outputs p) w6 of
                      Inl e \<Rightarrow> Inl e
                    | Inr w7 \<Rightarrow> Inr (report, w7)))))"

text \<open>
  \<^verbatim>\<open>connect_to_archive\<close> and its loop over the prerequisites. The recursion follows
  the prerequisites of the study, which the source does not bound: the first argument
  is the depth still allowed, and \<open>None\<close> means that it did not suffice. \<open>Some (Inl e)\<close>
  is an exception, \<open>Some (Inr (r, s))\<close> a return of \<open>r\<close> (\<open>None\<close> for Python's
  \<^verbatim>\<open>None\<close>, otherwise the report node) in state \<open>s\<close>.
\<close>

fun connect_to_archive ::
    "nat \<Rightarrow> study \<Rightarrow> pipeline \<Rightarrow> string list option \<Rightarrow> string list option \<Rightarrow> reprocess \<Rightarrow>
     project option \<Rightarrow> run_state \<Rightarrow> (error + node option \<times> run_state) option"
  and connect_prereqs ::
    "nat \<Rightarrow> study \<Rightarrow> pipeline \<Rightarrow> string list option \<Rightarrow> reprocess \<Rightarrow> project \<Rightarrow> string list \<Rightarrow>
     string list \<Rightarrow> node list \<Rightarrow> run_state \<Rightarrow> (error + node list \<times> run_state) option"
where
  "connect_to_archive 0 st p subject_ids visit_ids reproc proj s = None"
| "connect_to_archive (Suc n) st p subject_ids visit_ids reproc proj s =
     (case assert_connected p of
        Inl e \<Rightarrow> Some (Inl e)
      | Inr _ \<Rightarrow>
        (let pr = (case proj of
                     None \<Rightarrow> archive_project st subject_ids visit_ids
                   | Some pr \<Rightarrow> pr)
         in case sessions_to_process st p pr visit_ids reproc of
              Inl e \<Rightarrow> Some (Inl e)
            | Inr sessions \<Rightarrow>
                if sessions = [] then Some (Inr (None, s))
                else
                  (case subject_and_session_iterators p sessions
                          (add_nodes (complete_workflow s) [(p_ident p, p_name p)]) of
                     (its, w) \<Rightarrow>
                       (case (if has_prerequisites st p
                              then connect_prereqs n st p visit_ids reproc pr
                                     (remdups (map sess_subject sessions))
                                     (pipeline_getters st p) []
                                     (s\<lparr>complete_workflow := w\<rparr>)
                              else Some (Inr ([], s\<lparr>complete_workflow := w\<rparr>))) of
                          None \<Rightarrow> None
                        | Some (Inl e) \<Rightarrow> Some (Inl e)
                        | Some (Inr (reports, s1)) \<Rightarrow>
                            (case bind_archive st p its
                                    (connect_prereq_reports p reports its
                                       (complete_workflow s1)) of
                               Inl e \<Rightarrow> Some (Inl e)
                             | Inr (report, w') \<Rightarrow>
                                 Some (Inr (Some report, s1\<lparr>complete_workflow := w'\<rparr>)))))))"
| "connect_prereqs n st p visit_ids reproc pr prereq_subject_ids [] reports s =
     Some (Inr (reports, s))"
| "connect_prereqs n st p visit_ids reproc pr prereq_subject_ids (g # gs) reports s =
     (case pipeline_getter st g (next_ident s) (p_options p) of
        Inl e \<Rightarrow> Some (Inl e)
      | Inr prereq \<Rightarrow>
        (case connected_prereqs s (p_name prereq) of
           Some (connected_prereq, prereq_report) \<Rightarrow>
             if \<not> pipeline_eq connected_prereq prereq
             then Some (Inl (NiAnalysisError
                    (''Name clash between '' @ p_name connected_prereq @ '' and '' @
                     p_name prereq @ '' non-matching prerequisite pipelines'')))
             else connect_prereqs n st p visit_ids reproc pr prereq_subject_ids gs
                    (reports @ [prereq_report]) (s\<lparr>next_ident := Suc (next_ident s)\<rparr>)
         | None \<Rightarrow>
             (case connect_to_archive n st prereq (Some prereq_subject_ids) visit_ids
                     (prereq_reprocess reproc) (Some pr)
                     (s\<lparr>next_ident := Suc (next_ident s)\<rparr>) of
                None \<Rightarrow> None
              | Some (Inl e) \<Rightarrow> Some (Inl e)
              | Some (Inr (None, s1)) \<Rightarrow>
                  connect_prereqs n st p visit_ids reproc pr prereq_subject_ids gs reports s1
              | Some (Inr (Some prereq_report, s1)) \<Rightarrow>
                  connect_prereqs n st p visit_ids reproc pr prereq_subject_ids gs
                    (reports @ [prereq_report])
                    (s1\<lparr>connected_prereqs :=
                          (connected_prereqs s1)(p_name prereq \<mapsto> (prereq, prereq_report))\<rparr>))))"






section \<open>Concrete studies, projects and stores\<close>

text \<open>The inputs at which the theorems below are instantiated.\<close>

text \<open>
  A study \<open>S\<close> in the shape of the studies of the repository: a primary dataset
  \<open>raw\<close> and processed datasets, each with the pipeline method that produces it. A
  pipeline method constructs the pipeline and wires every input and output to a node
  of its own, as \<^verbatim>\<open>suvr_pipeline\<close> of \<^verbatim>\<open>StaticPETStudy\<close> does.
\<close>

definition ex_spec :: "string \<Rightarrow> dataset_spec" where
  "ex_spec n = \<lparr>spec_name = n, spec_format = ''nifti_gz''\<rparr>"

definition ex_processed :: "string \<Rightarrow> string \<Rightarrow> string \<Rightarrow> dataset" where
  "ex_processed n mult getter =
     \<lparr>ds_name = n, ds_format = ''nifti_gz'', multiplicity = mult, processed = True,
      ds_pipeline = getter, prefixed_name = ''S_'' @ n\<rparr>"

definition ex_dataset :: "string \<Rightarrow> dataset" where
  "ex_dataset n =
     (if n = ''preproc'' then ex_processed n ''per_session'' ''prep_pipeline''
      else if n = ''brain'' then ex_processed n ''per_session'' ''extract_pipeline''
      else if n = ''visit_mean'' then ex_processed n ''per_visit'' ''visit_mean_pipeline''
      else if n = ''mask'' then ex_processed n ''per_session'' ''template_pipeline''
      else if n = ''template'' then ex_processed n ''per_project'' ''template_pipeline''
      else if n = ''subject_id'' then ex_processed n ''per_session'' ''ids_pipeline''
      else \<lparr>ds_name = n, ds_format = ''nifti_gz'', multiplicity = ''per_session'',
             processed = False, ds_pipeline = [], prefixed_name = n\<rparr>)"

definition pipeline_method ::
  "study \<Rightarrow> nat \<Rightarrow> string \<Rightarrow> string list \<Rightarrow> string list \<Rightarrow> options_dict \<Rightarrow> options_dict \<Rightarrow>
   error + pipeline" where
  "pipeline_method st self name ins outs default_options options =
     (case Pipeline_init self st name (map ex_spec ins) (map ex_spec outs) ''description''
             default_options [] 1 options of
        Inl e \<Rightarrow> Inl e
      | Inr p \<Rightarrow>
          wire st p
            (map (\<lambda>i. ConnectInput (spec_name i) (self, name @ ''_node'') ''in'') (map ex_spec ins) @
             map (\<lambda>i. ConnectOutput (spec_name i) (self, name @ ''_node'') ''out'')
               (map ex_spec outs)))"

definition ex_session :: "string \<Rightarrow> string \<Rightarrow> string list \<Rightarrow> session" where
  "ex_session sid vid names = \<lparr>sess_id = vid, sess_subject = sid, sess_dataset_names = names\<rparr>"

text \<open>Two subjects with two visits each, nothing but \<open>raw\<close> archived.\<close>

definition ex_project :: project where
  "ex_project =
     \<lparr>proj_subjects =
        [\<lparr>subj_id = ''A'',
          subj_sessions = [ex_session ''A'' ''1'' [''raw''], ex_session ''A'' ''2'' [''raw'']],
          subj_dataset_names = []\<rparr>,
         \<lparr>subj_id = ''B'',
          subj_sessions = [ex_session ''B'' ''1'' [''raw''], ex_session ''B'' ''2'' [''raw'']],
          subj_dataset_names = []\<rparr>],
      proj_dataset_names = []\<rparr>"

definition ex_base :: study where
  "ex_base =
     \<lparr>study_name = ''S'', study_project_id = ''P'',
      dataset_spec_names =
        [''raw'', ''preproc'', ''brain'', ''visit_mean'', ''mask'', ''template'', ''subject_id''],
      study_dataset_spec = ex_dataset, study_dataset = ex_dataset,
      pipeline_getter = (\<lambda>g self options. Inl (KeyError g)),
      archive_project = (\<lambda>subject_ids visit_ids. ex_project),
      archive_source_missing = (\<lambda>name. None)\<rparr>"

definition ex_getters :: "string \<Rightarrow> nat \<Rightarrow> options_dict \<Rightarrow> error + pipeline" where
  "ex_getters g self options =
     (if g = ''prep_pipeline''
        then pipeline_method ex_base self ''prep'' [''raw''] [''preproc''] [] options
      else if g = ''extract_pipeline''
        then pipeline_method ex_base self ''extract'' [''preproc''] [''brain''] [] options
      else if g = ''visit_mean_pipeline''
        then pipeline_method ex_base self ''visit_mean'' [''raw''] [''visit_mean''] [] options
      else if g = ''template_pipeline''
        then pipeline_method ex_base self ''tmpl'' [''raw''] [''mask'', ''template''] [] options
      else Inl (KeyError g))"

definition ex_study :: study where
  "ex_study = ex_base\<lparr>pipeline_getter := ex_getters\<rparr>"

text \<open>
  The same subjects and visits with the visit-level dataset \<open>visit_mean\<close> recorded
  for visit \<open>1\<close> of every subject and for no visit \<open>2\<close>.
\<close>

definition c2_project :: project where
  "c2_project =
     \<lparr>proj_subjects =
        [\<lparr>subj_id = ''A'',
          subj_sessions = [ex_session ''A'' ''1'' [''raw'', ''S_visit_mean''],
                           ex_session ''A'' ''2'' [''raw'']],
          subj_dataset_names = []\<rparr>,
         \<lparr>subj_id = ''B'',
          subj_sessions = [ex_session ''B'' ''1'' [''raw'', ''S_visit_mean''],
                           ex_session ''B'' ''2'' [''raw'']],
          subj_dataset_names = []\<rparr>],
      proj_dataset_names = []\<rparr>"





text \<open>The state at the start of a top-level call for a pipeline object of identity \<open>0\<close>.\<close>

definition s0 :: run_state where
  "s0 = \<lparr>complete_workflow = \<lparr>wf_nodes = [], wf_connections = []\<rparr>,
         connected_prereqs = Map.empty, next_ident = 1\<rparr>"

text \<open>What a call returned, and parts of the state it left behind.\<close>

definition returned :: "(error + 'a \<times> run_state) option \<Rightarrow> (error + 'a) option" where
  "returned r = map_option (map_sum id fst) r"

definition final_state :: "(error + 'a \<times> run_state) option \<Rightarrow> run_state option" where
  "final_state r = (case r of Some (Inr (t, s)) \<Rightarrow> Some s | _ \<Rightarrow> None)"

definition nodes_named :: "string \<Rightarrow> run_state \<Rightarrow> node list" where
  "nodes_named name s = filter (\<lambda>nd. snd nd = name) (wf_nodes (complete_workflow s))"


text \<open>The pipeline objects the methods of the two studies return.\<close>

definition ex_pipeline :: "string \<Rightarrow> nat \<Rightarrow> options_dict \<Rightarrow> pipeline" where
  "ex_pipeline g self options = projr (ex_getters g self options)"


text \<open>The project of \<open>ex_project\<close> with \<open>preproc\<close> archived for every session.\<close>

definition c7_project :: project where
  "c7_project =
     \<lparr>proj_subjects =
        [\<lparr>subj_id = ''A'',
          subj_sessions = [ex_session ''A'' ''1'' [''raw'', ''S_preproc''],
                           ex_session ''A'' ''2'' [''raw'', ''S_preproc'']],
          subj_dataset_names = []\<rparr>,
         \<lparr>subj_id = ''B'',
          subj_sessions = [ex_session ''B'' ''1'' [''raw'', ''S_preproc''],
                           ex_session ''B'' ''2'' [''raw'', ''S_preproc'']],
          subj_dataset_names = []\<rparr>],
      proj_dataset_names = []\<rparr>"



text \<open>Two work sets: the same visits for both subjects, and disjoint visits.\<close>

definition c3_uniform :: "session list" where
  "c3_uniform = [ex_session ''A'' ''1'' [], ex_session ''A'' ''2'' [],
                 ex_session ''B'' ''1'' [], ex_session ''B'' ''2'' []]"

definition c3_disjoint :: "session list" where
  "c3_disjoint = [ex_session ''A'' ''1'' [], ex_session ''B'' ''2'' []]"

definition c3_pipeline :: pipeline where
  "c3_pipeline = projr (ex_getters ''prep_pipeline'' 0 [])"

text \<open>A store with a dictionary of defaults and a dictionary of overriding options.\<close>

definition c10_store :: store where
  "c10_store =
     [[(''robust'', VBool True), (''threshold'', VInt 5)],
      [(''threshold'', VInt 7), (''extra'', VStr ''x'')]]"

section \<open>Properties\<close>

subsection \<open>Options of a constructed pipeline\<close>

lemma update_known_length: "length (update_known h a kvs) = length h"
  by (induction h a kvs rule: update_known.induct) auto

lemma update_known_other: "b \<noteq> a \<Longrightarrow> update_known h a kvs ! b = h ! b"
  by (induction h a kvs rule: update_known.induct) auto

lemma update_known_fold:
  "a < length h \<Longrightarrow>
   update_known h a kvs ! a =
     fold (\<lambda>(k, v) d. if k \<in> fst ` set d then AList.update k v d else d) kvs (h ! a)"
  by (induction h a kvs rule: update_known.induct) auto

lemma merge_step_keys:
  "fst ` set (fold (\<lambda>(k, v) d. if k \<in> fst ` set d then AList.update k v d else d) kvs d0)
     = fst ` set d0"
proof (induction kvs arbitrary: d0)
  case Nil
  show ?case by simp
next
  case (Cons kv kvs)
  obtain k v where kv: "kv = (k, v)" by (cases kv)
  have "fst ` set (AList.update k v d0) = insert k (fst ` set d0)"
    using dom_update[of k v d0] by (simp add: dom_map_of_conv_image_fst)
  then show ?case using Cons.IH kv by (auto simp: insert_absorb)
qed

lemma merge_step_lookup:
  "distinct (map fst kvs) \<Longrightarrow>
   map_of (fold (\<lambda>(k, v) d. if k \<in> fst ` set d then AList.update k v d else d) kvs d0) x
     = (if x \<in> fst ` set d0 then (case map_of kvs x of Some v \<Rightarrow> Some v | None \<Rightarrow> map_of d0 x)
        else None)"
proof (induction kvs arbitrary: d0)
  case Nil
  show ?case by (auto simp: map_of_eq_None_iff)
next
  case (Cons kv kvs)
  obtain k v where kv: "kv = (k, v)" by (cases kv)
  have dk: "distinct (map fst kvs)" and nk: "k \<notin> fst ` set kvs"
    using Cons.prems kv by auto
  have keys: "fst ` set (AList.update k v d0) = insert k (fst ` set d0)"
    using dom_update[of k v d0] by (simp add: dom_map_of_conv_image_fst)
  have none: "map_of kvs k = None" using nk by (simp add: map_of_eq_None_iff)
  show ?case
  proof (cases "k \<in> fst ` set d0")
    case True
    then show ?thesis
      using Cons.IH[OF dk, of "AList.update k v d0"] kv keys none
      by (auto simp: update_conv' insert_absorb split: option.splits)
  next
    case False
    then show ?thesis
      using Cons.IH[OF dk, of d0] kv none by (auto split: option.splits)
  qed
qed

text \<open>
  Claim C10. Let the caller's default options be the dictionary at address \<open>d\<close> and the
  overriding options the one at \<open>o'\<close>. After lines 113--119 the pipeline's
  \<^verbatim>\<open>_default_options\<close> is the caller's object, its \<^verbatim>\<open>_options\<close> is a new object, and no
  dictionary the caller holds has changed (so the defaults are not mutated). The new
  dictionary has exactly the keys of the defaults; a key of the defaults maps to the
  overriding value when the overriding options have the key, and to the default
  otherwise; keys that only the overriding options have do not appear. The options of
  a pipeline built by \<open>Pipeline_init\<close> are this dictionary.
\<close>

theorem options_override_defaults:
  assumes "d < length h" and "o' < length h"
    and "distinct (map fst (h ! o'))"
    and "init_options h d o' = (dref, oref, h')"
  shows "dref = d \<and> oref = length h \<and> length h' = Suc (length h)
       \<and> (\<forall>a < length h. h' ! a = h ! a)
       \<and> fst ` set (h' ! oref) = fst ` set (h ! d)
       \<and> (\<forall>k \<in> fst ` set (h ! d).
            map_of (h' ! oref) k =
              (case map_of (h ! o') k of Some v \<Rightarrow> Some v | None \<Rightarrow> map_of (h ! d) k))
       \<and> h' ! oref = merge_options (h ! d) (h ! o')
       \<and> (\<forall>self st name ins outs desc cits ver p.
            Pipeline_init self st name ins outs desc (h ! d) cits ver (h ! o') = Inr p \<longrightarrow>
              p_options p = h' ! oref \<and> p_default_options p = h ! d)"
proof -
  let ?h1 = "h @ [h ! d]"
  have r: "dref = d" "oref = length h" "h' = update_known ?h1 (length h) (?h1 ! o')"
    using assms(4) by (auto simp: init_options_def copy_dict_def)
  have o1: "?h1 ! o' = h ! o'" using assms(2) by (simp add: nth_append)
  have len: "length h' = Suc (length h)" by (simp add: r update_known_length)
  have frame: "\<forall>a < length h. h' ! a = h ! a"
    by (simp add: r update_known_other nth_append)
  have new: "h' ! oref = merge_options (h ! d) (h ! o')"
    using update_known_fold[of "length h" ?h1 "h ! o'"]
    by (simp add: r o1 merge_options_def)
  have keys: "fst ` set (h' ! oref) = fst ` set (h ! d)"
    unfolding new merge_options_def by (rule merge_step_keys)
  have look: "\<forall>k \<in> fst ` set (h ! d).
            map_of (h' ! oref) k =
              (case map_of (h ! o') k of Some v \<Rightarrow> Some v | None \<Rightarrow> map_of (h ! d) k)"
    unfolding new merge_options_def using merge_step_lookup[OF assms(3)] by simp
  have init: "\<forall>self st name ins outs desc cits ver p.
            Pipeline_init self st name ins outs desc (h ! d) cits ver (h ! o') = Inr p \<longrightarrow>
              p_options p = h' ! oref \<and> p_default_options p = h ! d"
    unfolding new
    by (auto simp: Pipeline_init_def Let_def split: sum.splits if_splits)
  show ?thesis using r(1,2) len frame keys look new init by blast
qed

theorem options_override_defaults_witness:
  "init_options c10_store 0 1 =
     (0, 2, c10_store @ [[(''robust'', VBool True), (''threshold'', VInt 7)]])
   \<and> (c10_store @ [[(''robust'', VBool True), (''threshold'', VInt 7)]]) ! 0 = c10_store ! 0
   \<and> fst ` set ((c10_store @ [[(''robust'', VBool True), (''threshold'', VInt 7)]]) ! 2)
       = fst ` set (c10_store ! 0)
   \<and> map_of ((c10_store @ [[(''robust'', VBool True), (''threshold'', VInt 7)]]) ! 2)
       ''threshold'' = Some (VInt 7)
   \<and> map_of ((c10_store @ [[(''robust'', VBool True), (''threshold'', VInt 7)]]) ! 2)
       ''extra'' = None"
proof -
  have e: "init_options c10_store 0 1 =
     (0, 2, c10_store @ [[(''robust'', VBool True), (''threshold'', VInt 7)]])"
    by (simp add: init_options_def copy_dict_def c10_store_def)
  have a: "0 < length c10_store" "1 < length c10_store" "distinct (map fst (c10_store ! 1))"
    by (simp_all add: c10_store_def)
  have k: "(c10_store @ [[(''robust'', VBool True), (''threshold'', VInt 7)]]) ! 0 = c10_store ! 0
     \<and> fst ` set ((c10_store @ [[(''robust'', VBool True), (''threshold'', VInt 7)]]) ! 2)
       = fst ` set (c10_store ! 0)"
    using options_override_defaults[OF a e] a(1) by blast
  have v: "map_of ((c10_store @ [[(''robust'', VBool True), (''threshold'', VInt 7)]]) ! 2)
       ''threshold'' = Some (VInt 7)
   \<and> map_of ((c10_store @ [[(''robust'', VBool True), (''threshold'', VInt 7)]]) ! 2)
       ''extra'' = None"
    by (simp add: c10_store_def)
  from e k v show ?thesis by blast
qed

subsection \<open>Evaluation of the concrete study\<close>

lemmas ex_defs = ex_spec_def ex_processed_def ex_dataset_def pipeline_method_def ex_session_def
  ex_project_def ex_base_def ex_getters_def ex_study_def c2_project_def

lemma ex_tmpl_outputs:
  "outputs (projr (ex_getters ''template_pipeline'' 0 [])) = [ex_spec ''mask'', ex_spec ''template'']"
  by (simp add: ex_defs Pipeline_init_def check_spec_names_def group_outputs_def iterfields_def
        connect_input_def connect_output_def input_names_def output_names_def inputs_def outputs_def
        Let_def wf_connect_def)

lemma ex_visit_outputs:
  "outputs (projr (ex_getters ''visit_mean_pipeline'' 0 [])) = [ex_spec ''visit_mean'']"
  by (simp add: ex_defs Pipeline_init_def check_spec_names_def group_outputs_def iterfields_def
        connect_input_def connect_output_def input_names_def output_names_def inputs_def outputs_def
        Let_def wf_connect_def)

lemma ex_visit_dataset:
  "study_dataset ex_study (spec_name (ex_spec ''visit_mean''))
     = ex_processed ''visit_mean'' ''per_visit'' ''visit_mean_pipeline''"
  by (simp add: ex_study_def ex_base_def ex_spec_def ex_dataset_def)

lemma c2_eval:
  "sessions_to_process ex_study (projr (ex_getters ''visit_mean_pipeline'' 0 []))
      c2_project None RFalse
   = Inr [ex_session ''B'' ''2'' [''raw''], ex_session ''B'' ''1'' [''raw'', ''S_visit_mean''],
          ex_session ''A'' ''2'' [''raw''], ex_session ''A'' ''1'' [''raw'', ''S_visit_mean'']]"
  by (simp add: sessions_to_process_def truthy_def ex_visit_outputs ex_visit_dataset
        ex_processed_def c2_project_def set_update_def filter_sessions_def ex_session_def)

subsection \<open>Grouping by key\<close>

lemma dd_append_keys: "fst ` set (dd_append d k v) = insert k (fst ` set d)"
  by (induction d k v rule: dd_append.induct) auto

lemma dd_append_values:
  "(\<Union>x \<in> set (dd_append d k v). set (snd x)) = insert v (\<Union>x \<in> set d. set (snd x))"
  by (induction d k v rule: dd_append.induct) auto

lemma group_fold_keys:
  "fst ` set (fold (\<lambda>x d. dd_append d (f x) x) xs acc) = fst ` set acc \<union> f ` set xs"
  by (induction xs arbitrary: acc) (auto simp: dd_append_keys)

lemma group_fold_values:
  "(\<Union>x \<in> set (fold (\<lambda>x d. dd_append d (f x) x) xs acc). set (snd x))
     = (\<Union>x \<in> set acc. set (snd x)) \<union> set xs"
proof (induction xs arbitrary: acc)
  case Nil
  show ?case by simp
next
  case (Cons x xs)
  show ?case
    unfolding fold_simps Cons.IH dd_append_values by auto
qed

lemma group_outputs_keys:
  "fst ` set (group_outputs st outs)
     = (\<lambda>output. multiplicity (study_dataset_spec st (spec_name output))) ` set outs"
  unfolding group_outputs_def group_fold_keys by simp

lemma group_outputs_values: "(\<Union>x \<in> set (group_outputs st outs). set (snd x)) = set outs"
  unfolding group_outputs_def group_fold_values by simp

subsection \<open>Construction errors\<close>

lemma not_distinct_card: "\<not> distinct xs \<Longrightarrow> length xs \<noteq> card (set xs)"
  using card_distinct[of xs] by auto

lemma Pipeline_init_Inr:
  assumes "Pipeline_init self st name ins outs desc dflt cits ver opts = Inr p"
  shows "filter (\<lambda>i. spec_name i \<in> set iterfields) ins = []"
    and "length ins = card (spec_name ` set ins)"
    and "length outs = card (spec_name ` set outs)"
    and "p_inputs p = ins" and "p_outputs p = group_outputs st outs"
    and "p_outputnodes p =
           map (\<lambda>(mult, _). (mult, (self, name @ ''_'' @ mult @ ''_outputnode'')))
             (group_outputs st outs)"
    and "p_unconnected_inputs p = spec_name ` set ins"
    and "p_unconnected_outputs p = spec_name ` set outs"
  using assms unfolding Pipeline_init_def Let_def
  by (auto simp: group_outputs_values split: sum.splits if_splits)

text \<open>
  Claim C9, as amended. Construction fails (the result is an exception) whenever a
  declared input is named like one of the two iteration fields \<open>subject_id\<close> and
  \<open>visit_id\<close>, or the names of the declared inputs repeat, or the names of the declared
  outputs repeat. The clash with an iteration field is checked for the inputs only (the
  iteration fields are fields of the input node): an output of such a name is accepted.
\<close>

theorem construction_rejects_clash_or_duplicates:
  assumes "(\<exists>i \<in> set ins. spec_name i \<in> set iterfields)
           \<or> \<not> distinct (map spec_name ins) \<or> \<not> distinct (map spec_name outs)"
  shows "isl (Pipeline_init self st name ins outs desc dflt cits ver opts)"
proof (cases "Pipeline_init self st name ins outs desc dflt cits ver opts")
  case (Inl e)
  then show ?thesis by simp
next
  case (Inr p)
  note f = Pipeline_init_Inr[OF Inr]
  have "\<not> (\<exists>i \<in> set ins. spec_name i \<in> set iterfields)"
    using f(1) by (auto simp: filter_empty_conv)
  moreover have "distinct (map spec_name ins)"
    using f(2) not_distinct_card[of "map spec_name ins"] by auto
  moreover have "distinct (map spec_name outs)"
    using f(3) not_distinct_card[of "map spec_name outs"] by auto
  ultimately show ?thesis using assms by blast
qed

theorem construction_rejects_clash_or_duplicates_witness:
  "isl (Pipeline_init 0 ex_base ''p'' [ex_spec ''subject_id''] [] ''d'' [] [] 1 [])
   \<and> isl (Pipeline_init 0 ex_base ''p'' [] [ex_spec ''brain'', ex_spec ''brain''] ''d'' [] [] 1 [])"
  using construction_rejects_clash_or_duplicates[of "[ex_spec ''subject_id'']" "[]" 0 ex_base
          "''p''" "''d''" "[]" "[]" 1 "[]"]
        construction_rejects_clash_or_duplicates[of "[]" "[ex_spec ''brain'', ex_spec ''brain'']"
          0 ex_base "''p''" "''d''" "[]" "[]" 1 "[]"]
  by (simp add: iterfields_def ex_spec_def)

theorem output_named_as_iterfield_counterexample:
  "spec_name (ex_spec ''subject_id'') \<in> set iterfields
   \<and> \<not> isl (Pipeline_init 0 ex_base ''ids'' [ex_spec ''raw''] [ex_spec ''subject_id'']
             ''d'' [] [] 1 [])"
  by (simp add: ex_defs Pipeline_init_def check_spec_names_def group_outputs_def iterfields_def
        Let_def)

subsection \<open>Wiring and validation\<close>

lemma connect_input_fields:
  "connect_input p n nd fld = Inr p' \<Longrightarrow>
   p_inputs p' = p_inputs p \<and> p_outputs p' = p_outputs p \<and> p_outputnodes p' = p_outputnodes p
   \<and> p_unconnected_inputs p' = p_unconnected_inputs p - {n}
   \<and> p_unconnected_outputs p' = p_unconnected_outputs p"
  by (auto simp: connect_input_def split: if_splits)

lemma connect_output_fields:
  "connect_output st p n nd fld = Inr p' \<Longrightarrow>
   p_inputs p' = p_inputs p \<and> p_outputs p' = p_outputs p \<and> p_outputnodes p' = p_outputnodes p
   \<and> p_unconnected_inputs p' = p_unconnected_inputs p
   \<and> p_unconnected_outputs p' = p_unconnected_outputs p - {n}"
  by (auto simp: connect_output_def split: if_splits option.splits)

lemma wire_fields:
  "wire st p ws = Inr p' \<Longrightarrow>
   p_inputs p' = p_inputs p \<and> p_outputs p' = p_outputs p \<and> p_outputnodes p' = p_outputnodes p
   \<and> p_unconnected_inputs p' = p_unconnected_inputs p - wired_inputs ws
   \<and> p_unconnected_outputs p' = p_unconnected_outputs p - wired_outputs ws"
proof (induction st p ws rule: wire.induct)
  case (1 st p)
  then show ?case by simp
next
  case (2 st p name nd fld ws)
  then obtain q where q: "connect_input p name nd fld = Inr q" "wire st q ws = Inr p'"
    by (auto split: sum.splits)
  from "2.IH"[OF q] connect_input_fields[OF q(1)] show ?case by auto
next
  case (3 st p name nd fld ws)
  then obtain q where q: "connect_output st p name nd fld = Inr q" "wire st q ws = Inr p'"
    by (auto split: sum.splits)
  from "3.IH"[OF q] connect_output_fields[OF q(1)] show ?case by auto
qed

lemma wire_append:
  "wire st p (xs @ ys) = (case wire st p xs of Inl e \<Rightarrow> Inl e | Inr q \<Rightarrow> wire st q ys)"
  by (induction st p xs rule: wire.induct) (auto split: sum.splits)

lemma wired_map_inputs:
  "wired_inputs (map (\<lambda>i. ConnectInput (spec_name i) (nd i) (fld i)) xs) = spec_name ` set xs"
  "wired_outputs (map (\<lambda>i. ConnectInput (spec_name i) (nd i) (fld i)) xs) = {}"
  by (induction xs) auto

lemma wired_map_outputs:
  "wired_outputs (map (\<lambda>i. ConnectOutput (spec_name i) (nd i) (fld i)) xs) = spec_name ` set xs"
  "wired_inputs (map (\<lambda>i. ConnectOutput (spec_name i) (nd i) (fld i)) xs) = {}"
  by (induction xs) auto

lemma wired_append:
  "wired_inputs (xs @ ys) = wired_inputs xs \<union> wired_inputs ys"
  "wired_outputs (xs @ ys) = wired_outputs xs \<union> wired_outputs ys"
  by (induction xs rule: wired_inputs.induct) auto

lemma wire_inputs_ok:
  "spec_name ` set xs \<subseteq> set (input_names p) \<Longrightarrow>
   \<exists>q. wire st p (map (\<lambda>i. ConnectInput (spec_name i) (nd i) (fld i)) xs) = Inr q"
proof (induction xs arbitrary: p)
  case Nil
  then show ?case by simp
next
  case (Cons x xs)
  let ?q = "p\<lparr>p_workflow := wf_connect (p_workflow p) (p_inputnode p) (spec_name x) (nd x) (fld x),
              p_unconnected_inputs := p_unconnected_inputs p - {spec_name x}\<rparr>"
  have c: "connect_input p (spec_name x) (nd x) (fld x) = Inr ?q"
    using Cons.prems by (simp add: connect_input_def)
  have "spec_name ` set xs \<subseteq> set (input_names ?q)"
    using Cons.prems by (simp add: input_names_def inputs_def)
  from Cons.IH[OF this] c show ?case by auto
qed

lemma wire_outputs_ok:
  "distinct (map spec_name xs) \<Longrightarrow> spec_name ` set xs \<subseteq> set (output_names p) \<Longrightarrow>
   spec_name ` set xs \<subseteq> p_unconnected_outputs p \<Longrightarrow>
   (\<forall>x \<in> set xs. multiplicity (study_dataset_spec st (spec_name x)) \<in> fst ` set (p_outputnodes p)) \<Longrightarrow>
   \<exists>q. wire st p (map (\<lambda>i. ConnectOutput (spec_name i) (nd i) (fld i)) xs) = Inr q"
proof (induction xs arbitrary: p)
  case Nil
  then show ?case by simp
next
  case (Cons x xs)
  from Cons.prems(4) obtain outputnode where
    on: "map_of (p_outputnodes p) (multiplicity (study_dataset_spec st (spec_name x))) = Some outputnode"
    by (cases "map_of (p_outputnodes p) (multiplicity (study_dataset_spec st (spec_name x)))")
       (auto simp: map_of_eq_None_iff)
  let ?q = "p\<lparr>p_workflow := wf_connect (p_workflow p) (nd x) (fld x) outputnode (spec_name x),
              p_unconnected_outputs := p_unconnected_outputs p - {spec_name x}\<rparr>"
  have c: "connect_output st p (spec_name x) (nd x) (fld x) = Inr ?q"
    using Cons.prems on by (simp add: connect_output_def)
  have 1: "distinct (map spec_name xs)" using Cons.prems(1) by simp
  have 2: "spec_name ` set xs \<subseteq> set (output_names ?q)"
    using Cons.prems(2) by (simp add: output_names_def outputs_def)
  have nx: "spec_name x \<notin> spec_name ` set xs" using Cons.prems(1) by simp
  have 3: "spec_name ` set xs \<subseteq> p_unconnected_outputs ?q"
  proof
    fix n
    assume n: "n \<in> spec_name ` set xs"
    then have "n \<noteq> spec_name x" using nx by blast
    moreover have "n \<in> p_unconnected_outputs p" using n Cons.prems(3) by auto
    ultimately show "n \<in> p_unconnected_outputs ?q" by simp
  qed
  have 4: "\<forall>x \<in> set xs. multiplicity (study_dataset_spec st (spec_name x))
             \<in> fst ` set (p_outputnodes ?q)"
    using Cons.prems(4) by simp
  from Cons.IH[OF 1 2 3 4] c show ?case by auto
qed

text \<open>
  Claim C8. Take a pipeline \<open>p0\<close> as the constructor returned it and any sequence of
  \<^verbatim>\<open>connect_input\<close> and \<^verbatim>\<open>connect_output\<close> calls that ran without an exception.
  Then \<^verbatim>\<open>assert_connected\<close> fails if and only if some declared input name has had no
  \<^verbatim>\<open>connect_input\<close> or some declared output name has had no \<^verbatim>\<open>connect_output\<close>. And
  the round trip works: connecting every declared input and then every declared output
  (to whatever nodes) runs without an exception, and \<^verbatim>\<open>assert_connected\<close> passes after it.
\<close>

theorem validation_fails_iff_unconnected:
  assumes init: "Pipeline_init self st name ins outs desc dflt cits ver opts = Inr p0"
  shows "(\<forall>ws p. wire st p0 ws = Inr p \<longrightarrow>
            (isl (assert_connected p) \<longleftrightarrow>
               (\<exists>n \<in> spec_name ` set ins. n \<notin> wired_inputs ws)
               \<or> (\<exists>n \<in> spec_name ` set outs. n \<notin> wired_outputs ws)))
       \<and> (\<exists>p. wire st p0 (map (\<lambda>i. ConnectInput (spec_name i) (nd i) (fld i)) ins @
                         map (\<lambda>i. ConnectOutput (spec_name i) (nd' i) (fld' i)) outs) = Inr p
              \<and> assert_connected p = Inr ())"
proof -
  note f = Pipeline_init_Inr[OF init]
  have iff: "isl (assert_connected p) \<longleftrightarrow>
               (\<exists>n \<in> spec_name ` set ins. n \<notin> wired_inputs ws)
               \<or> (\<exists>n \<in> spec_name ` set outs. n \<notin> wired_outputs ws)"
    if w: "wire st p0 ws = Inr p" for ws p
  proof -
    from wire_fields[OF w] f(7,8)
    have u: "p_unconnected_inputs p = spec_name ` set ins - wired_inputs ws"
            "p_unconnected_outputs p = spec_name ` set outs - wired_outputs ws"
      by simp_all
    have "isl (assert_connected p) \<longleftrightarrow>
            p_unconnected_inputs p \<noteq> {} \<or> p_unconnected_outputs p \<noteq> {}"
      by (simp add: assert_connected_def)
    also have "\<dots> \<longleftrightarrow> (\<exists>n \<in> spec_name ` set ins. n \<notin> wired_inputs ws)
               \<or> (\<exists>n \<in> spec_name ` set outs. n \<notin> wired_outputs ws)"
      unfolding u by blast
    finally show ?thesis .
  qed
  let ?wi = "map (\<lambda>i. ConnectInput (spec_name i) (nd i) (fld i)) ins"
  let ?wo = "map (\<lambda>i. ConnectOutput (spec_name i) (nd' i) (fld' i)) outs"
  have "spec_name ` set ins \<subseteq> set (input_names p0)"
    by (simp add: input_names_def inputs_def f(4))
  from wire_inputs_ok[OF this, of st nd fld] obtain q where q: "wire st p0 ?wi = Inr q"
    by blast
  note qf = wire_fields[OF q]
  have d: "distinct (map spec_name outs)"
    using f(3) not_distinct_card[of "map spec_name outs"] by auto
  have o: "spec_name ` set outs \<subseteq> set (output_names q)"
    using qf f(5) by (simp add: output_names_def outputs_def group_outputs_values)
  have u: "spec_name ` set outs \<subseteq> p_unconnected_outputs q"
    using qf f(8) by (simp add: wired_map_inputs)
  have k: "\<forall>x \<in> set outs.
           multiplicity (study_dataset_spec st (spec_name x)) \<in> fst ` set (p_outputnodes q)"
  proof -
    have "p_outputnodes q = map (\<lambda>(mult, _). (mult, (self, name @ ''_'' @ mult @ ''_outputnode'')))
             (group_outputs st outs)"
      using qf f(6) by simp
    then have "map fst (p_outputnodes q) = map fst (group_outputs st outs)"
      by (simp add: case_prod_beta)
    then have "set (map fst (p_outputnodes q)) = set (map fst (group_outputs st outs))"
      by (rule arg_cong)
    then have "fst ` set (p_outputnodes q) = fst ` set (group_outputs st outs)"
      by (simp only: set_map)
    then show ?thesis by (simp add: group_outputs_keys)
  qed
  from wire_outputs_ok[OF d o u k, of nd' fld'] obtain p where p: "wire st q ?wo = Inr p"
    by blast
  have w: "wire st p0 (?wi @ ?wo) = Inr p" by (simp only: wire_append q p sum.case)
  have "\<not> isl (assert_connected p)"
    unfolding iff[OF w] by (simp add: wired_append wired_map_inputs wired_map_outputs)
  then have ac: "assert_connected p = Inr ()" by (cases "assert_connected p") auto
  have A: "\<forall>ws p. wire st p0 ws = Inr p \<longrightarrow>
            (isl (assert_connected p) \<longleftrightarrow>
               (\<exists>n \<in> spec_name ` set ins. n \<notin> wired_inputs ws)
               \<or> (\<exists>n \<in> spec_name ` set outs. n \<notin> wired_outputs ws))"
    by (intro allI impI) (rule iff)
  have B: "\<exists>p. wire st p0 (?wi @ ?wo) = Inr p \<and> assert_connected p = Inr ()"
    using w ac by (intro exI conjI)
  show ?thesis by (rule conjI[OF A B])
qed

theorem validation_fails_iff_unconnected_witness:
  "isl (assert_connected (projr (Pipeline_init 0 ex_base ''prep'' [ex_spec ''raw'']
          [ex_spec ''preproc''] ''d'' [] [] 1 [])))
   \<and> (\<exists>p. wire ex_base (projr (Pipeline_init 0 ex_base ''prep'' [ex_spec ''raw'']
                 [ex_spec ''preproc''] ''d'' [] [] 1 []))
             [ConnectInput ''raw'' (0, ''n'') ''in'', ConnectOutput ''preproc'' (0, ''n'') ''out'']
           = Inr p \<and> assert_connected p = Inr ())"
proof -
  have "\<not> isl (Pipeline_init 0 ex_base ''prep'' [ex_spec ''raw''] [ex_spec ''preproc'']
          ''d'' [] [] 1 [])"
    by (simp add: ex_defs Pipeline_init_def check_spec_names_def group_outputs_def iterfields_def
        Let_def)
  then obtain p0 where e: "Pipeline_init 0 ex_base ''prep'' [ex_spec ''raw'']
          [ex_spec ''preproc''] ''d'' [] [] 1 [] = Inr p0"
    by (cases "Pipeline_init 0 ex_base ''prep'' [ex_spec ''raw''] [ex_spec ''preproc'']
          ''d'' [] [] 1 []") auto
  note t = validation_fails_iff_unconnected[OF e, of "\<lambda>i. (0, ''n'')" "\<lambda>i. ''in''"
             "\<lambda>i. (0, ''n'')" "\<lambda>i. ''out''"]
  have w0: "wire ex_base p0 [] = Inr p0" by simp
  from t w0 have "isl (assert_connected p0) \<longleftrightarrow>
               (\<exists>n \<in> spec_name ` set [ex_spec ''raw'']. n \<notin> wired_inputs [])
               \<or> (\<exists>n \<in> spec_name ` set [ex_spec ''preproc'']. n \<notin> wired_outputs [])"
    by blast
  then have a: "isl (assert_connected p0)" by simp
  from t have b: "\<exists>p. wire ex_base p0
             [ConnectInput ''raw'' (0, ''n'') ''in'', ConnectOutput ''preproc'' (0, ''n'') ''out'']
           = Inr p \<and> assert_connected p = Inr ()"
    by (simp add: ex_spec_def)
  from a b show ?thesis by (simp add: e)
qed

subsection \<open>Sessions to process\<close>

lemma sessions_loop_project_missing:
  assumes "\<forall>d \<in> set ds. multiplicity d \<in> {''per_project'', ''per_subject'', ''per_visit'', ''per_session''}"
    and "\<exists>d \<in> set ds. multiplicity d = ''per_project'' \<and> prefixed_name d \<notin> set (proj_dataset_names pr)"
  shows "sessions_loop pr visit_ids ds acc = Inr (all_sessions pr)"
  using assms by (induction ds arbitrary: acc) auto

text \<open>
  Claim C1. If the outputs of the pipeline (all of a recognised multiplicity) contain a
  \<open>per_project\<close> dataset whose prefixed name is not among the project's dataset names,
  then \<^verbatim>\<open>_sessions_to_process\<close> with \<open>reprocess = False\<close> returns \<open>all_sessions\<close>, the
  sessions of all subjects of the project, whatever \<open>visit_ids\<close> is given.
\<close>

theorem missing_project_output_selects_all:
  assumes "\<forall>output \<in> set (outputs p). multiplicity (study_dataset st (spec_name output))
              \<in> {''per_project'', ''per_subject'', ''per_visit'', ''per_session''}"
    and "\<exists>output \<in> set (outputs p).
            multiplicity (study_dataset st (spec_name output)) = ''per_project''
          \<and> prefixed_name (study_dataset st (spec_name output)) \<notin> set (proj_dataset_names pr)"
  shows "sessions_to_process st p pr visit_ids RFalse = Inr (all_sessions pr)
       \<and> set (all_sessions pr) = (\<Union>sub \<in> set (proj_subjects pr). set (subj_sessions sub))"
proof -
  have "sessions_loop pr visit_ids
          (map (\<lambda>output. study_dataset st (spec_name output)) (outputs p)) []
        = Inr (all_sessions pr)"
    by (rule sessions_loop_project_missing) (use assms in auto)
  then show ?thesis by (auto simp: sessions_to_process_def truthy_def all_sessions_def)
qed

theorem missing_project_output_selects_all_witness:
  "sessions_to_process ex_study (projr (ex_getters ''template_pipeline'' 0 [])) ex_project
      (Some [''1'']) RFalse = Inr (all_sessions ex_project)
   \<and> length (all_sessions ex_project) = 4"
  using missing_project_output_selects_all[of "projr (ex_getters ''template_pipeline'' 0 [])"
          ex_study ex_project "Some [''1'']"]
  by (simp add: ex_tmpl_outputs)
     (simp add: ex_spec_def ex_study_def ex_base_def ex_dataset_def ex_processed_def
        ex_project_def all_sessions_def)

lemma set_update_set: "set (set_update acc xs) = set acc \<union> set xs"
  unfolding set_update_def by (induction xs arbitrary: acc) auto

lemma visit_output_selects_by_subject_list:
  assumes "outputs p = [output]"
    and "multiplicity (study_dataset st (spec_name output)) \<in> {''per_visit'', ''per_subject''}"
  shows "\<exists>ws. sessions_to_process st p pr visit_ids RFalse = Inr ws
       \<and> set ws = {s. \<exists>sub \<in> set (proj_subjects pr).
                    prefixed_name (study_dataset st (spec_name output)) \<notin> set (subj_dataset_names sub)
                  \<and> s \<in> set (subj_sessions sub)
                  \<and> (case visit_ids of None \<Rightarrow> True | Some vs \<Rightarrow> sess_id s \<in> set vs)}"
  using assms
  by (auto simp: sessions_to_process_def truthy_def set_update_set filter_sessions_def
           split: option.splits)

text \<open>
  Claim C2, as amended. For a pipeline whose single output is a \<open>per_visit\<close> (or
  \<open>per_subject\<close>) dataset, \<^verbatim>\<open>_sessions_to_process\<close> with \<open>reprocess = False\<close> returns the
  sessions, restricted to \<open>visit_ids\<close> if given, of the subjects whose own dataset names
  lack the prefixed name of the output: a \<open>per_visit\<close> output is looked up exactly as a
  \<open>per_subject\<close> one, and the project snapshot has no record per visit.
\<close>

theorem visit_output_selects_by_subject:
  assumes "outputs p = [output]"
    and "multiplicity (study_dataset st (spec_name output)) \<in> {''per_visit'', ''per_subject''}"
  shows "map_sum id set (sessions_to_process st p pr visit_ids RFalse)
       = Inr {s. \<exists>sub \<in> set (proj_subjects pr).
                    prefixed_name (study_dataset st (spec_name output)) \<notin> set (subj_dataset_names sub)
                  \<and> s \<in> set (subj_sessions sub)
                  \<and> (case visit_ids of None \<Rightarrow> True | Some vs \<Rightarrow> sess_id s \<in> set vs)}"
  using visit_output_selects_by_subject_list[OF assms, of pr visit_ids] by auto

theorem visit_output_selects_by_subject_witness:
  "map_sum id set (sessions_to_process ex_study (projr (ex_getters ''visit_mean_pipeline'' 0 []))
      c2_project (Some [''2'']) RFalse)
   = Inr {s. \<exists>sub \<in> set (proj_subjects c2_project).
               prefixed_name (study_dataset ex_study (spec_name (ex_spec ''visit_mean'')))
                 \<notin> set (subj_dataset_names sub)
             \<and> s \<in> set (subj_sessions sub)
             \<and> (case Some [''2''] of None \<Rightarrow> True | Some vs \<Rightarrow> sess_id s \<in> set vs)}"
proof (rule visit_output_selects_by_subject)
  show "outputs (projr (ex_getters ''visit_mean_pipeline'' 0 [])) = [ex_spec ''visit_mean'']"
    by (rule ex_visit_outputs)
  show "multiplicity (study_dataset ex_study (spec_name (ex_spec ''visit_mean'')))
          \<in> {''per_visit'', ''per_subject''}"
    by (simp add: ex_visit_dataset ex_processed_def)
qed

theorem visit_output_counterexample:
  "sessions_to_process ex_study (projr (ex_getters ''visit_mean_pipeline'' 0 []))
      c2_project None RFalse
   = Inr [ex_session ''B'' ''2'' [''raw''], ex_session ''B'' ''1'' [''raw'', ''S_visit_mean''],
          ex_session ''A'' ''2'' [''raw''], ex_session ''A'' ''1'' [''raw'', ''S_visit_mean'']]
   \<and> list_all (\<lambda>s. (''S_visit_mean'' \<in> set (sess_dataset_names s)) = (sess_id s = ''1''))
        (all_sessions c2_project)
   \<and> filter (\<lambda>s. sess_id s = ''2'') (all_sessions c2_project)
        = [ex_session ''A'' ''2'' [''raw''], ex_session ''B'' ''2'' [''raw'']]
   \<and> set [ex_session ''B'' ''2'' [''raw''], ex_session ''B'' ''1'' [''raw'', ''S_visit_mean''],
          ex_session ''A'' ''2'' [''raw''], ex_session ''A'' ''1'' [''raw'', ''S_visit_mean'']]
      \<noteq> set [ex_session ''A'' ''2'' [''raw''], ex_session ''B'' ''2'' [''raw'']]"
proof -
  have a: "list_all (\<lambda>s. (''S_visit_mean'' \<in> set (sess_dataset_names s)) = (sess_id s = ''1''))
        (all_sessions c2_project)"
    by (simp add: all_sessions_def c2_project_def ex_session_def)
  have b: "filter (\<lambda>s. sess_id s = ''2'') (all_sessions c2_project)
        = [ex_session ''A'' ''2'' [''raw''], ex_session ''B'' ''2'' [''raw'']]"
    by (simp add: all_sessions_def c2_project_def ex_session_def)
  have "ex_session ''A'' ''1'' [''raw'', ''S_visit_mean'']
          \<notin> set [ex_session ''A'' ''2'' [''raw''], ex_session ''B'' ''2'' [''raw'']]"
    by (simp add: ex_session_def)
  moreover have "ex_session ''A'' ''1'' [''raw'', ''S_visit_mean'']
          \<in> set [ex_session ''B'' ''2'' [''raw''], ex_session ''B'' ''1'' [''raw'', ''S_visit_mean''],
          ex_session ''A'' ''2'' [''raw''], ex_session ''A'' ''1'' [''raw'', ''S_visit_mean'']]"
    by simp
  ultimately have c: "set [ex_session ''B'' ''2'' [''raw''], ex_session ''B'' ''1'' [''raw'', ''S_visit_mean''],
          ex_session ''A'' ''2'' [''raw''], ex_session ''A'' ''1'' [''raw'', ''S_visit_mean'']]
      \<noteq> set [ex_session ''A'' ''2'' [''raw''], ex_session ''B'' ''2'' [''raw'']]"
    by metis
  from c2_eval a b c show ?thesis by (intro conjI)
qed

subsection \<open>The iteration space\<close>

lemma dd_add_keys: "fst ` set (dd_add d k v) = insert k (fst ` set d)"
  by (induction d k v rule: dd_add.induct) auto

lemma dd_add_distinct: "distinct (map fst d) \<Longrightarrow> distinct (map fst (dd_add d k v))"
proof (induction d k v rule: dd_add.induct)
  case (1 k v)
  show ?case by simp
next
  case (2 k' vs m k v)
  have "fst ` set (dd_add m k v) = insert k (fst ` set m)" by (rule dd_add_keys)
  with 2 show ?case by auto
qed

lemma dd_add_lookup:
  "map_of (dd_add d k v) k' =
     (if k' = k then Some (List.insert v (case map_of d k of None \<Rightarrow> [] | Some vs \<Rightarrow> vs))
      else map_of d k')"
  by (induction d k v rule: dd_add.induct) auto

lemma dd_append_distinct: "distinct (map fst d) \<Longrightarrow> distinct (map fst (dd_append d k v))"
proof (induction d k v rule: dd_append.induct)
  case (1 k v)
  show ?case by simp
next
  case (2 k' vs m k v)
  have "fst ` set (dd_append m k v) = insert k (fst ` set m)" by (rule dd_append_keys)
  with 2 show ?case by auto
qed

lemma dd_append_lookup:
  "map_of (dd_append d k v) k' =
     (if k' = k then Some ((case map_of d k of None \<Rightarrow> [] | Some vs \<Rightarrow> vs) @ [v])
      else map_of d k')"
  by (induction d k v rule: dd_append.induct) auto

lemma fold_dd_add_keys:
  "fst ` set (fold (\<lambda>s d. dd_add d (f s) (g s)) ws d) = fst ` set d \<union> f ` set ws"
  by (induction ws arbitrary: d) (auto simp: dd_add_keys)

lemma fold_dd_add_distinct:
  "distinct (map fst d) \<Longrightarrow> distinct (map fst (fold (\<lambda>s d. dd_add d (f s) (g s)) ws d))"
  by (induction ws arbitrary: d) (auto simp: dd_add_distinct)

lemma fold_dd_add_lookup:
  "map_option set (map_of (fold (\<lambda>s d. dd_add d (f s) (g s)) ws d) k) =
     (if k \<in> fst ` set d \<union> f ` set ws
      then Some ((case map_of d k of None \<Rightarrow> {} | Some vs \<Rightarrow> set vs) \<union> g ` {s \<in> set ws. f s = k})
      else None)"
proof (induction ws arbitrary: d)
  case Nil
  have "k \<in> fst ` set d \<longleftrightarrow> map_of d k \<noteq> None" by (simp add: map_of_eq_None_iff)
  then show ?case by (cases "map_of d k") auto
next
  case (Cons s ws)
  have keys: "fst ` set (dd_add d (f s) (g s)) = insert (f s) (fst ` set d)"
    by (rule dd_add_keys)
  have g: "g ` {x \<in> set (s # ws). f x = k} =
           (if f s = k then insert (g s) (g ` {x \<in> set ws. f x = k}) else g ` {x \<in> set ws. f x = k})"
    by auto
  show ?case
    unfolding fold_simps Cons.IH keys dd_add_lookup g
    by (auto split: option.splits)
qed

lemma fold_dd_append_keys:
  "fst ` set (fold (\<lambda>s d. dd_append d (f s) (g s)) ws d) = fst ` set d \<union> f ` set ws"
  by (induction ws arbitrary: d) (auto simp: dd_append_keys)

lemma fold_dd_append_lookup:
  "map_of (fold (\<lambda>s d. dd_append d (f s) (g s)) ws d) k =
     (if k \<in> fst ` set d \<union> f ` set ws
      then Some ((case map_of d k of None \<Rightarrow> [] | Some vs \<Rightarrow> vs) @ map g (filter (\<lambda>s. f s = k) ws))
      else None)"
proof (induction ws arbitrary: d)
  case Nil
  have "k \<in> fst ` set d \<longleftrightarrow> map_of d k \<noteq> None" by (simp add: map_of_eq_None_iff)
  then show ?case by (cases "map_of d k") auto
next
  case (Cons s ws)
  have keys: "fst ` set (dd_append d (f s) (g s)) = insert (f s) (fst ` set d)"
    by (rule dd_append_keys)
  have "k \<in> fst ` set d \<longleftrightarrow> map_of d k \<noteq> None" by (simp add: map_of_eq_None_iff)
  then show ?case
    unfolding fold_simps Cons.IH keys dd_append_lookup
    by (auto split: option.splits)
qed

lemma session_subjects_lookup:
  "map_option set (map_of (session_subjects ws) v) =
     (if v \<in> sess_id ` set ws then Some (subjects_with_visit ws v) else None)"
  unfolding session_subjects_def fold_dd_add_lookup subjects_with_visit_def by simp

lemma session_subjects_distinct: "distinct (map fst (session_subjects ws))"
  unfolding session_subjects_def by (rule fold_dd_add_distinct) simp

lemma session_subjects_keys: "fst ` set (session_subjects ws) = sess_id ` set ws"
  unfolding session_subjects_def fold_dd_add_keys by simp

lemma subject_sessions_lookup:
  "map_of (subject_sessions ws) sid =
     (if sid \<in> sess_subject ` set ws
      then Some (map sess_id (filter (\<lambda>s. sess_subject s = sid) ws)) else None)"
  unfolding subject_sessions_def fold_dd_append_lookup by simp

lemma uniform_iff:
  "list_all (\<lambda>ss. set ss = U) (map snd (session_subjects ws)) \<longleftrightarrow>
     (\<forall>v \<in> sess_id ` set ws. subjects_with_visit ws v = U)"
proof
  assume l: "list_all (\<lambda>ss. set ss = U) (map snd (session_subjects ws))"
  show "\<forall>v \<in> sess_id ` set ws. subjects_with_visit ws v = U"
  proof
    fix v
    assume v: "v \<in> sess_id ` set ws"
    with session_subjects_lookup[of ws v]
    obtain ss where ss: "map_of (session_subjects ws) v = Some ss"
        "set ss = subjects_with_visit ws v"
      by (cases "map_of (session_subjects ws) v") auto
    from ss(1) have "(v, ss) \<in> set (session_subjects ws)" by (rule map_of_SomeD)
    then have "ss \<in> set (map snd (session_subjects ws))" by force
    with l have "set ss = U" by (auto simp: list_all_iff)
    with ss(2) show "subjects_with_visit ws v = U" by simp
  qed
next
  assume u: "\<forall>v \<in> sess_id ` set ws. subjects_with_visit ws v = U"
  show "list_all (\<lambda>ss. set ss = U) (map snd (session_subjects ws))"
    unfolding list_all_iff
  proof
    fix ss
    assume "ss \<in> set (map snd (session_subjects ws))"
    then obtain v where m: "(v, ss) \<in> set (session_subjects ws)" by auto
    then have v: "v \<in> sess_id ` set ws"
      using session_subjects_keys[of ws] by force
    from m session_subjects_distinct[of ws] have "map_of (session_subjects ws) v = Some ss"
      by simp
    with session_subjects_lookup[of ws v] v have "set ss = subjects_with_visit ws v" by simp
    with u v show "set ss = U" by blast
  qed
qed

lemma binding_cases:
  "sessions_binding (fst (subject_and_session_iterators p ws w)) =
     (if \<forall>v \<in> sess_id ` set ws. subjects_with_visit ws v = sess_subject ` set ws
      then Flat (map fst (session_subjects ws))
      else Sourced (p_name p @ ''_subjects'', ''subject_id'') (subject_sessions ws))"
  using uniform_iff[of "sess_subject ` set ws" ws]
  by (simp add: subject_and_session_iterators_def Let_def)

lemma uniform_identical:
  assumes ab: "a \<noteq> b" "sess_subject ` set ws = {a, b}"
      "visits_of_subject ws a = visits_of_subject ws b"
  shows "\<forall>v \<in> sess_id ` set ws. subjects_with_visit ws v = sess_subject ` set ws"
proof
  fix v
  assume "v \<in> sess_id ` set ws"
  then obtain s where s: "s \<in> set ws" "sess_id s = v" by auto
  then have "sess_subject s \<in> {a, b}" using ab(2) by blast
  with s have "v \<in> visits_of_subject ws a \<or> v \<in> visits_of_subject ws b"
    unfolding visits_of_subject_def by blast
  with ab(3) have v: "v \<in> visits_of_subject ws a" "v \<in> visits_of_subject ws b" by blast+
  from v(1) have a: "a \<in> subjects_with_visit ws v"
    unfolding visits_of_subject_def subjects_with_visit_def by blast
  from v(2) have b: "b \<in> subjects_with_visit ws v"
    unfolding visits_of_subject_def subjects_with_visit_def by blast
  have "subjects_with_visit ws v \<subseteq> sess_subject ` set ws"
    unfolding subjects_with_visit_def by blast
  then have "subjects_with_visit ws v \<subseteq> {a, b}" unfolding ab(2) .
  with a b have "subjects_with_visit ws v = {a, b}" by blast
  then show "subjects_with_visit ws v = sess_subject ` set ws" unfolding ab(2) .
qed

lemma uniform_disjoint:
  assumes ab: "a \<noteq> b" "sess_subject ` set ws = {a, b}"
      "visits_of_subject ws a \<inter> visits_of_subject ws b = {}"
  shows "\<not> (\<forall>v \<in> sess_id ` set ws. subjects_with_visit ws v = sess_subject ` set ws)"
proof
  assume u: "\<forall>v \<in> sess_id ` set ws. subjects_with_visit ws v = sess_subject ` set ws"
  have "a \<in> sess_subject ` set ws" unfolding ab(2) by simp
  then obtain s where s: "s \<in> set ws" "sess_subject s = a" by blast
  then have va: "sess_id s \<in> visits_of_subject ws a"
    unfolding visits_of_subject_def by blast
  from s(1) have "sess_id s \<in> sess_id ` set ws" by blast
  with u have "subjects_with_visit ws (sess_id s) = sess_subject ` set ws" by blast
  then have "b \<in> subjects_with_visit ws (sess_id s)" unfolding ab(2) by simp
  then obtain x where x: "x \<in> set ws" "sess_id x = sess_id s" "sess_subject x = b"
    unfolding subjects_with_visit_def by blast
  then have "sess_id x \<in> visits_of_subject ws b"
    unfolding visits_of_subject_def by blast
  then have "sess_id s \<in> visits_of_subject ws b" using x(2) by simp
  with va ab(3) show False by blast
qed

lemma visits_of_subject_list:
  "visits_of_subject ws sid = set (map sess_id (filter (\<lambda>s. sess_subject s = sid) ws))"
  unfolding visits_of_subject_def by auto

lemma c3_name: "p_name c3_pipeline = ''prep''"
  by (simp add: c3_pipeline_def ex_getters_def ex_base_def ex_dataset_def
        Pipeline_init_def check_spec_names_def group_outputs_def iterfields_def
        connect_input_def connect_output_def input_names_def output_names_def inputs_def outputs_def
        Let_def wf_connect_def pipeline_method_def ex_spec_def ex_processed_def)

lemma c3_eval:
  "sessions_binding (fst (subject_and_session_iterators c3_pipeline c3_uniform w))
     = Flat [''1'', ''2'']"
  "sessions_binding (fst (subject_and_session_iterators c3_pipeline c3_disjoint w))
     = Sourced (''prep_subjects'', ''subject_id'') [(''A'', [''1'']), (''B'', [''2''])]"
  by (simp_all add: subject_and_session_iterators_def session_subjects_def subject_sessions_def
        c3_uniform_def c3_disjoint_def ex_session_def c3_name Let_def insert_commute)

text \<open>
  Claim C3. \<^verbatim>\<open>_subject_and_session_iterators\<close> binds the visit axis as one flat list of
  visit ids if and only if, for every visit id of the work set, the subjects that have
  that visit in the work set are all the subjects of the work set. The flat list holds
  each visit id of the work set once. Otherwise the binding is sourced from the subject
  axis (\<open>itersource = (name_subjects, subject_id)\<close>) and maps every subject of the work
  set to the visit ids of its sessions. In particular two subjects with the same visit
  ids give the flat binding and two subjects with disjoint visit ids the sourced one.
\<close>

theorem visit_axis_flat_iff_uniform:
  "(is_flat (sessions_binding (fst (subject_and_session_iterators p ws w))) \<longleftrightarrow>
      (\<forall>v \<in> sess_id ` set ws. subjects_with_visit ws v = sess_subject ` set ws))
   \<and> (\<forall>vs. sessions_binding (fst (subject_and_session_iterators p ws w)) = Flat vs \<longrightarrow>
         distinct vs \<and> set vs = sess_id ` set ws)
   \<and> (\<forall>src m. sessions_binding (fst (subject_and_session_iterators p ws w)) = Sourced src m \<longrightarrow>
         src = (p_name p @ ''_subjects'', ''subject_id'')
       \<and> (\<forall>sid. map_of m sid =
             (if sid \<in> sess_subject ` set ws
              then Some (map sess_id (filter (\<lambda>s. sess_subject s = sid) ws)) else None)))
   \<and> (\<forall>a b. a \<noteq> b \<and> sess_subject ` set ws = {a, b}
           \<and> visits_of_subject ws a = visits_of_subject ws b \<longrightarrow>
         is_flat (sessions_binding (fst (subject_and_session_iterators p ws w))))
   \<and> (\<forall>a b. a \<noteq> b \<and> sess_subject ` set ws = {a, b}
           \<and> visits_of_subject ws a \<inter> visits_of_subject ws b = {} \<longrightarrow>
         \<not> is_flat (sessions_binding (fst (subject_and_session_iterators p ws w))))"
proof -
  let ?b = "sessions_binding (fst (subject_and_session_iterators p ws w))"
  let ?U = "\<forall>v \<in> sess_id ` set ws. subjects_with_visit ws v = sess_subject ` set ws"
  have 1: "is_flat ?b \<longleftrightarrow> ?U"
    unfolding binding_cases by (simp add: is_flat_def)
  have 2: "\<forall>vs. ?b = Flat vs \<longrightarrow> distinct vs \<and> set vs = sess_id ` set ws"
  proof (intro allI impI)
    fix vs
    assume "?b = Flat vs"
    then have "vs = map fst (session_subjects ws)"
      unfolding binding_cases by (simp split: if_splits)
    then show "distinct vs \<and> set vs = sess_id ` set ws"
      using session_subjects_distinct[of ws] session_subjects_keys[of ws] by simp
  qed
  have 3: "\<forall>src m. ?b = Sourced src m \<longrightarrow>
         src = (p_name p @ ''_subjects'', ''subject_id'')
       \<and> (\<forall>sid. map_of m sid =
             (if sid \<in> sess_subject ` set ws
              then Some (map sess_id (filter (\<lambda>s. sess_subject s = sid) ws)) else None))"
  proof (intro allI impI)
    fix src m
    assume "?b = Sourced src m"
    then have "src = (p_name p @ ''_subjects'', ''subject_id'')" "m = subject_sessions ws"
      unfolding binding_cases by (simp_all split: if_splits)
    then show "src = (p_name p @ ''_subjects'', ''subject_id'')
       \<and> (\<forall>sid. map_of m sid =
             (if sid \<in> sess_subject ` set ws
              then Some (map sess_id (filter (\<lambda>s. sess_subject s = sid) ws)) else None))"
      using subject_sessions_lookup[of ws] by simp
  qed
  have flat4: "\<forall>a b. a \<noteq> b \<and> sess_subject ` set ws = {a, b}
           \<and> visits_of_subject ws a = visits_of_subject ws b \<longrightarrow> is_flat ?b"
  proof (intro allI impI)
    fix a b
    assume h: "a \<noteq> b \<and> sess_subject ` set ws = {a, b}
           \<and> visits_of_subject ws a = visits_of_subject ws b"
    show "is_flat ?b"
      unfolding 1
      by (rule uniform_identical[OF h[THEN conjunct1] h[THEN conjunct2, THEN conjunct1]
                h[THEN conjunct2, THEN conjunct2]])
  qed
  have flat5: "\<forall>a b. a \<noteq> b \<and> sess_subject ` set ws = {a, b}
           \<and> visits_of_subject ws a \<inter> visits_of_subject ws b = {} \<longrightarrow> \<not> is_flat ?b"
  proof (intro allI impI)
    fix a b
    assume h: "a \<noteq> b \<and> sess_subject ` set ws = {a, b}
           \<and> visits_of_subject ws a \<inter> visits_of_subject ws b = {}"
    show "\<not> is_flat ?b"
      unfolding 1
      by (rule uniform_disjoint[OF h[THEN conjunct1] h[THEN conjunct2, THEN conjunct1]
                h[THEN conjunct2, THEN conjunct2]])
  qed
  show ?thesis by (rule conjI[OF 1 conjI[OF 2 conjI[OF 3 conjI[OF flat4 flat5]]]])
qed

theorem visit_axis_flat_iff_uniform_witness:
  "is_flat (sessions_binding (fst (subject_and_session_iterators c3_pipeline c3_uniform
      \<lparr>wf_nodes = [], wf_connections = []\<rparr>)))
   \<and> \<not> is_flat (sessions_binding (fst (subject_and_session_iterators c3_pipeline c3_disjoint
      \<lparr>wf_nodes = [], wf_connections = []\<rparr>)))
   \<and> sessions_binding (fst (subject_and_session_iterators c3_pipeline c3_uniform
      \<lparr>wf_nodes = [], wf_connections = []\<rparr>)) = Flat [''1'', ''2'']
   \<and> sessions_binding (fst (subject_and_session_iterators c3_pipeline c3_disjoint
      \<lparr>wf_nodes = [], wf_connections = []\<rparr>))
       = Sourced (''prep_subjects'', ''subject_id'') [(''A'', [''1'']), (''B'', [''2''])]"
proof -
  have u: "''A'' \<noteq> ''B'' \<and> sess_subject ` set c3_uniform = {''A'', ''B''}
           \<and> visits_of_subject c3_uniform ''A'' = visits_of_subject c3_uniform ''B''"
    by (simp add: visits_of_subject_list c3_uniform_def ex_session_def)
  have d: "''A'' \<noteq> ''B'' \<and> sess_subject ` set c3_disjoint = {''A'', ''B''}
           \<and> visits_of_subject c3_disjoint ''A'' \<inter> visits_of_subject c3_disjoint ''B'' = {}"
    by (simp add: visits_of_subject_list c3_disjoint_def ex_session_def)
  have 1: "is_flat (sessions_binding (fst (subject_and_session_iterators c3_pipeline c3_uniform
      \<lparr>wf_nodes = [], wf_connections = []\<rparr>)))"
    by (rule visit_axis_flat_iff_uniform[of c3_pipeline c3_uniform
          "\<lparr>wf_nodes = [], wf_connections = []\<rparr>",
          THEN conjunct2, THEN conjunct2, THEN conjunct2, THEN conjunct1, rule_format, OF u])
  have 2: "\<not> is_flat (sessions_binding (fst (subject_and_session_iterators c3_pipeline c3_disjoint
      \<lparr>wf_nodes = [], wf_connections = []\<rparr>)))"
    by (rule visit_axis_flat_iff_uniform[of c3_pipeline c3_disjoint
          "\<lparr>wf_nodes = [], wf_connections = []\<rparr>",
          THEN conjunct2, THEN conjunct2, THEN conjunct2, THEN conjunct2, rule_format, OF d])
  show ?thesis by (rule conjI[OF 1 conjI[OF 2 conjI[OF c3_eval(1) c3_eval(2)]]])
qed

subsection \<open>The reprocess flag of a prerequisite\<close>




subsection \<open>The cache of connected prerequisites\<close>







lemmas init_defs = Pipeline_init_def check_spec_names_def group_outputs_def iterfields_def
        connect_input_def connect_output_def input_names_def output_names_def inputs_def outputs_def
        Let_def wf_connect_def pipeline_method_def ex_spec_def ex_processed_def merge_options_def

lemma ex_prep_object:
  "ex_getters ''prep_pipeline'' i [] = Inr (ex_pipeline ''prep_pipeline'' i [])"
  "p_name (ex_pipeline ''prep_pipeline'' i []) = ''prep''"
  "outputs (ex_pipeline ''prep_pipeline'' i []) = [ex_spec ''preproc'']"
  "p_unconnected_inputs (ex_pipeline ''prep_pipeline'' i []) = {}"
  "p_unconnected_outputs (ex_pipeline ''prep_pipeline'' i []) = {}"
  by (simp_all add: ex_pipeline_def ex_getters_def ex_base_def ex_dataset_def init_defs)

lemma ex_extract_object:
  "p_options (ex_pipeline ''extract_pipeline'' i []) = []"
  by (simp_all add: ex_pipeline_def ex_getters_def ex_base_def ex_dataset_def init_defs)



subsection \<open>Dependencies recorded in the workflow\<close>



















text \<open>A cached report node is the only one of its name that later dependencies use.\<close>

lemma report_name_inject: "a @ ''_report'' = b @ ''_report'' \<Longrightarrow> a = b"
  by simp








subsection \<open>Whole runs on the concrete studies\<close>


lemma ex_study_fields:
  "pipeline_getter ex_study = ex_getters"
  "study_dataset ex_study = ex_dataset"
  by (simp_all add: ex_study_def ex_base_def)







lemmas run_defs = assert_connected_def sessions_to_process_def truthy_def outputs_def inputs_def
        ex_spec_def ex_processed_def ex_project_def ex_session_def set_update_def
        filter_sessions_def all_sessions_def
        subject_and_session_iterators_def session_subjects_def subject_sessions_def
        has_prerequisites_def pipeline_getters_def bind_archive_def create_node_def
        add_nodes_def wf_connect_def connect_prereq_reports_def connect_to_reports_def
        OUTPUT_SUFFIX_def INPUT_SUFFIX_def get_converter_node_def prereq_reprocess_def
        pipeline_eq_def dict_eq_def options_eq_def Let_def insert_commute


lemma ex_prep_fields:
  "ex_getters ''prep_pipeline'' i [] = Inr (ex_pipeline ''prep_pipeline'' i [])"
  "p_ident (ex_pipeline ''prep_pipeline'' i []) = i"
  "p_name (ex_pipeline ''prep_pipeline'' i []) = ''prep''"
  "p_inputs (ex_pipeline ''prep_pipeline'' i []) = [ex_spec ''raw'']"
  "p_outputs (ex_pipeline ''prep_pipeline'' i []) = [(''per_session'', [ex_spec ''preproc''])]"
  "p_outputnodes (ex_pipeline ''prep_pipeline'' i []) = [(''per_session'', (i, ''prep_per_session_outputnode''))]"
  "p_inputnode (ex_pipeline ''prep_pipeline'' i []) = (i, ''prep_inputnode'')"
  "p_unconnected_inputs (ex_pipeline ''prep_pipeline'' i []) = {}"
  "p_unconnected_outputs (ex_pipeline ''prep_pipeline'' i []) = {}"
  "p_options (ex_pipeline ''prep_pipeline'' i []) = []"
  by (simp_all add: ex_pipeline_def ex_getters_def ex_base_def ex_dataset_def init_defs)

lemma ex_extract_fields:
  "ex_getters ''extract_pipeline'' i [] = Inr (ex_pipeline ''extract_pipeline'' i [])"
  "p_ident (ex_pipeline ''extract_pipeline'' i []) = i"
  "p_name (ex_pipeline ''extract_pipeline'' i []) = ''extract''"
  "p_inputs (ex_pipeline ''extract_pipeline'' i []) = [ex_spec ''preproc'']"
  "p_outputs (ex_pipeline ''extract_pipeline'' i []) = [(''per_session'', [ex_spec ''brain''])]"
  "p_outputnodes (ex_pipeline ''extract_pipeline'' i []) = [(''per_session'', (i, ''extract_per_session_outputnode''))]"
  "p_inputnode (ex_pipeline ''extract_pipeline'' i []) = (i, ''extract_inputnode'')"
  "p_unconnected_inputs (ex_pipeline ''extract_pipeline'' i []) = {}"
  "p_unconnected_outputs (ex_pipeline ''extract_pipeline'' i []) = {}"
  "p_options (ex_pipeline ''extract_pipeline'' i []) = []"
  by (simp_all add: ex_pipeline_def ex_getters_def ex_base_def ex_dataset_def init_defs)

lemma ex_study_more:
  "archive_project ex_study = (\<lambda>a b. ex_project)"
  "archive_source_missing ex_study = (\<lambda>n. None)"
  by (simp_all add: ex_study_def ex_base_def)

lemma ex_dataset_vals:
  "ex_dataset ''raw'' = \<lparr>ds_name = ''raw'', ds_format = ''nifti_gz'', multiplicity = ''per_session'',
             processed = False, ds_pipeline = [], prefixed_name = ''raw''\<rparr>"
  "ex_dataset ''preproc'' = ex_processed ''preproc'' ''per_session'' ''prep_pipeline''"
  "ex_dataset ''brain'' = ex_processed ''brain'' ''per_session'' ''extract_pipeline''"
  by (simp_all add: ex_dataset_def)

lemma char_of_49: "char_of (49::nat) = CHR ''1''"
  by code_simp







lemma skipped_prerequisite_run:
  "returned (connect_to_archive (Suc (Suc 0)) ex_study (ex_pipeline ''extract_pipeline'' 0 [])
      None None RFalse (Some c7_project) s0) = Some (Inr (Some (0, ''extract_report'')))"
  "map_option (nodes_named ''prep'')
     (final_state (connect_to_archive (Suc (Suc 0)) ex_study (ex_pipeline ''extract_pipeline'' 0 [])
        None None RFalse (Some c7_project) s0)) = Some []"
  "map_option (nodes_named ''extract_prereq_reports'')
     (final_state (connect_to_archive (Suc (Suc 0)) ex_study (ex_pipeline ''extract_pipeline'' 0 [])
        None None RFalse (Some c7_project) s0)) = Some []"
  by (simp_all add: returned_def final_state_def nodes_named_def
        s0_def ex_prep_fields ex_extract_fields ex_study_fields ex_study_more ex_dataset_vals
        c7_project_def run_defs char_of_49)

subsection \<open>Sharing, conflicts and skipped steps\<close>













text \<open>
  Claim C7. When all inputs and outputs are connected and no session is selected,
  \<^verbatim>\<open>connect_to_archive\<close> returns \<^verbatim>\<open>None\<close> without an exception and leaves the state as it
  was: nothing is added to the workflow (or to the cache). A dependent whose uncached
  prerequisite is skipped in this way goes on to its next prerequisite with its list of
  reports unchanged; the skipped prerequisite is not stored in the cache.
\<close>

theorem empty_work_set_skips:
  "(assert_connected p = Inr ()
      \<and> sessions_to_process st p
            (case proj of None \<Rightarrow> archive_project st sids v | Some pr \<Rightarrow> pr) v r = Inr [] \<longrightarrow>
    connect_to_archive (Suc n) st p sids v r proj s = Some (Inr (None, s)))
   \<and> (\<forall>q. pipeline_getter st g (next_ident s) (p_options d) = Inr q
          \<and> connected_prereqs s (p_name q) = None
          \<and> assert_connected q = Inr ()
          \<and> sessions_to_process st q pr v (prereq_reprocess r') = Inr [] \<longrightarrow>
        connect_prereqs (Suc n) st d v r' pr sids' (g # gs) reports s =
          connect_prereqs (Suc n) st d v r' pr sids' gs reports
            (s\<lparr>next_ident := Suc (next_ident s)\<rparr>))"
  by simp

lemma c7_prep_sessions:
  "sessions_to_process ex_study (ex_pipeline ''prep_pipeline'' i []) c7_project None RFalse = Inr []"
  by (simp add: sessions_to_process_def truthy_def ex_prep_object ex_study_fields ex_dataset_def
        ex_spec_def ex_processed_def c7_project_def ex_session_def all_sessions_def
        set_update_def filter_sessions_def)

theorem empty_work_set_skips_witness:
  "connect_to_archive 1 ex_study (ex_pipeline ''prep_pipeline'' 1 []) (Some [''B'', ''A'']) None
      RFalse (Some c7_project) (s0\<lparr>next_ident := 2\<rparr>)
   = Some (Inr (None, s0\<lparr>next_ident := 2\<rparr>))
   \<and> connect_prereqs 1 ex_study (ex_pipeline ''extract_pipeline'' 0 []) None RFalse c7_project
        [''B'', ''A''] [''prep_pipeline''] [] s0
      = Some (Inr ([], s0\<lparr>next_ident := 2\<rparr>))
   \<and> returned (connect_to_archive (Suc (Suc 0)) ex_study
        (ex_pipeline ''extract_pipeline'' 0 []) None None RFalse (Some c7_project) s0)
       = Some (Inr (Some (0, ''extract_report'')))
   \<and> map_option (nodes_named ''prep'')
        (final_state (connect_to_archive (Suc (Suc 0)) ex_study
           (ex_pipeline ''extract_pipeline'' 0 []) None None RFalse (Some c7_project) s0))
       = Some []
   \<and> map_option (nodes_named ''extract_prereq_reports'')
        (final_state (connect_to_archive (Suc (Suc 0)) ex_study
           (ex_pipeline ''extract_pipeline'' 0 []) None None RFalse (Some c7_project) s0))
       = Some []"
proof -
  have a: "assert_connected (ex_pipeline ''prep_pipeline'' 1 []) = Inr ()
      \<and> sessions_to_process ex_study (ex_pipeline ''prep_pipeline'' 1 [])
            (case Some c7_project of None \<Rightarrow> archive_project ex_study (Some [''B'', ''A'']) None
             | Some pr \<Rightarrow> pr) None RFalse = Inr []"
    by (simp add: assert_connected_def ex_prep_object c7_prep_sessions)
  have 1: "connect_to_archive (Suc 0) ex_study (ex_pipeline ''prep_pipeline'' 1 [])
      (Some [''B'', ''A'']) None RFalse (Some c7_project) (s0\<lparr>next_ident := 2\<rparr>)
   = Some (Inr (None, s0\<lparr>next_ident := 2\<rparr>))"
    by (rule empty_work_set_skips[THEN conjunct1, rule_format, OF a])
  have b: "pipeline_getter ex_study ''prep_pipeline'' (next_ident s0)
             (p_options (ex_pipeline ''extract_pipeline'' 0 []))
           = Inr (ex_pipeline ''prep_pipeline'' 1 [])
          \<and> connected_prereqs s0 (p_name (ex_pipeline ''prep_pipeline'' 1 [])) = None
          \<and> assert_connected (ex_pipeline ''prep_pipeline'' 1 []) = Inr ()
          \<and> sessions_to_process ex_study (ex_pipeline ''prep_pipeline'' 1 []) c7_project None
               (prereq_reprocess RFalse) = Inr []"
    by (simp add: ex_study_fields ex_extract_object ex_prep_object s0_def assert_connected_def
          prereq_reprocess_def c7_prep_sessions)
  have "connect_prereqs (Suc 0) ex_study (ex_pipeline ''extract_pipeline'' 0 []) None RFalse
          c7_project [''B'', ''A''] (''prep_pipeline'' # []) [] s0
        = connect_prereqs (Suc 0) ex_study (ex_pipeline ''extract_pipeline'' 0 []) None RFalse
          c7_project [''B'', ''A''] [] [] (s0\<lparr>next_ident := Suc (next_ident s0)\<rparr>)"
    by (rule empty_work_set_skips[THEN conjunct2, rule_format, OF b])
  then have 2: "connect_prereqs 1 ex_study (ex_pipeline ''extract_pipeline'' 0 []) None RFalse
        c7_project [''B'', ''A''] [''prep_pipeline''] [] s0
      = Some (Inr ([], s0\<lparr>next_ident := 2\<rparr>))"
    by (simp add: s0_def)
  have 12: "connect_to_archive 1 ex_study (ex_pipeline ''prep_pipeline'' 1 [])
      (Some [''B'', ''A'']) None RFalse (Some c7_project) (s0\<lparr>next_ident := 2\<rparr>)
   = Some (Inr (None, s0\<lparr>next_ident := 2\<rparr>))
   \<and> connect_prereqs 1 ex_study (ex_pipeline ''extract_pipeline'' 0 []) None RFalse c7_project
        [''B'', ''A''] [''prep_pipeline''] [] s0
      = Some (Inr ([], s0\<lparr>next_ident := 2\<rparr>))"
    using 1 2 by simp
  show ?thesis
    by (rule conjI[OF 12[THEN conjunct1] conjI[OF 12[THEN conjunct2]
          conjI[OF skipped_prerequisite_run(1) conjI[OF skipped_prerequisite_run(2)
            skipped_prerequisite_run(3)]]]])
qed

end
